theory Spec2Isabelle
  imports Main "HOL-Library.AList" "HOL-Library.Char_ord" "HOL-Library.List_Lexorder"
    "HOL-Library.Multiset"
begin

section \<open>Values\<close>

text \<open>
  The helpers of \<^verbatim>\<open>helpers/model/utils.ts\<close> and \<^verbatim>\<open>helpers/model/init.ts\<close> work on
  untyped JavaScript values. A plain object is an association list in insertion order
  (\<^verbatim>\<open>Object.keys\<close> order); a model class is a function value carrying its static
  \<^verbatim>\<open>type\<close> and its class-level meta; a \<^verbatim>\<open>PureModel\<close> instance carries its class
  (static type and class meta) and its own meta store, the string-keyed dictionary
  that \<^verbatim>\<open>getMeta\<close>/\<^verbatim>\<open>setMeta\<close> read and write. Numbers are integers (identifiers and
  counters); \<^verbatim>\<open>JFun n\<close> is the n-th function that computes the target model of a
  reference; \<^verbatim>\<open>JCollection\<close> is the collection object a model points at.

  The class-level meta is a pair. Its first component holds the name of the identifier
  field and the name of the type field of the class, that is, what
  \<^verbatim>\<open>getMeta(model.constructor, MetaClassField.IdField, DEFAULT_ID_FIELD, true)\<close> and
  \<^verbatim>\<open>getMeta(model.constructor, MetaClassField.TypeField, DEFAULT_TYPE_FIELD, true)\<close> read:
  the name of the attribute that the class declares with \<^verbatim>\<open>isIdentifier\<close> or \<^verbatim>\<open>isType\<close>,
  and for a class that declares none the constant of \<^verbatim>\<open>consts.ts\<close>, which is not among the
  sources. The two names are therefore given with the class, and nothing is assumed about
  the constants. The second component is the rest of the class-level meta store (the
  declared fields and the mappings).
\<close>

datatype jsval =
    JUndefined
  | JNull
  | JBool bool
  | JNum int
  | JStr string
  | JArr "jsval list"
  | JObj "(string \<times> jsval) list"
  | JClass jsval "(string \<times> string) \<times> (string \<times> jsval) list"
  | JFun nat
  | JModel jsval "(string \<times> string) \<times> (string \<times> jsval) list" "(string \<times> jsval) list"
  | JCollection

type_synonym classmeta = "(string \<times> string) \<times> (string \<times> jsval) list"

datatype error = Error string | TypeError | CycleError | OutOfFuel

definition MODEL_EXISTS :: string where
  "MODEL_EXISTS = ''Model already exists, please update it instead.''"

definition NO_REFS :: string where
  "NO_REFS = ''You should save this value as a reference.''"

definition UNDEFINED_MODEL :: string where
  "UNDEFINED_MODEL = ''No model is defined for the type ${type}.''"

definition REF_SINGLE :: "string \<Rightarrow> string" where
  "REF_SINGLE key = ''The reference '' @ key @ '' can't be an array of values.''"

definition REF_ARRAY :: "string \<Rightarrow> string" where
  "REF_ARRAY key = ''The reference '' @ key @ '' must be an array of values.''"

definition NOT_IN_COLLECTION :: string where
  "NOT_IN_COLLECTION = ''The model needs to be in a collection to be referenceable''"

text \<open>JavaScript truthiness, \<^verbatim>\<open>a || b\<close>, \<^verbatim>\<open>typeof\<close> and \<^verbatim>\<open>isArrayLike\<close>.\<close>

fun truthy :: "jsval \<Rightarrow> bool" where
  "truthy JUndefined = False"
| "truthy JNull = False"
| "truthy (JBool b) = b"
| "truthy (JNum n) = (n \<noteq> 0)"
| "truthy (JStr s) = (s \<noteq> [])"
| "truthy v = True"

definition js_or :: "jsval \<Rightarrow> jsval \<Rightarrow> jsval" where
  "js_or a b = (if truthy a then a else b)"

fun typeof_object :: "jsval \<Rightarrow> bool" where
  "typeof_object JNull = True"
| "typeof_object (JArr xs) = True"
| "typeof_object (JObj kvs) = True"
| "typeof_object (JModel t cm m) = True"
| "typeof_object JCollection = True"
| "typeof_object v = False"

fun isArrayLike :: "jsval \<Rightarrow> bool" where
  "isArrayLike (JArr xs) = True"
| "isArrayLike v = False"

fun instanceofPureModel :: "jsval \<Rightarrow> bool" where
  "instanceofPureModel (JModel t cm m) = True"
| "instanceofPureModel v = False"

text \<open>
  Modelled from the spec: the meta store of the utilities package (\<^verbatim>\<open>getMeta\<close> and
  \<^verbatim>\<open>setMeta\<close> are not among the sources), which holds the non-field metadata of a model.
  \<^verbatim>\<open>getMeta(obj, key, defaultValue)\<close> is the stored value, the default when nothing (or
  \<^verbatim>\<open>undefined\<close>) is stored. \<^verbatim>\<open>setMeta\<close> keeps the position of a key that is already there.
\<close>

definition getMeta :: "(string \<times> jsval) list \<Rightarrow> string \<Rightarrow> jsval \<Rightarrow> jsval" where
  "getMeta meta key dflt =
     (case map_of meta key of None \<Rightarrow> dflt | Some v \<Rightarrow> (if v = JUndefined then dflt else v))"

definition setMeta :: "(string \<times> jsval) list \<Rightarrow> string \<Rightarrow> jsval \<Rightarrow> (string \<times> jsval) list" where
  "setMeta meta key v = AList.update key v meta"

text \<open>The names of the meta entries (the enums \<^verbatim>\<open>MetaModelField\<close> and \<^verbatim>\<open>MetaClassField\<close>,
  whose values \<^verbatim>\<open>initModel\<close> reads back as \<^verbatim>\<open>modelMeta?.id\<close>, \<^verbatim>\<open>modelMeta?.type\<close>,
  \<^verbatim>\<open>modelMeta?.fields\<close> and \<^verbatim>\<open>modelMeta?.originalId\<close>).\<close>

definition META_FIELD :: string where "META_FIELD = ''__META__''"
definition IdField :: string where "IdField = ''id''"
definition TypeField :: string where "TypeField = ''type''"
definition Fields :: string where "Fields = ''fields''"
definition Collection :: string where "Collection = ''collection''"
definition OriginalId :: string where "OriginalId = ''originalId''"
definition Patch :: string where "Patch = ''patch''"
definition PatchListeners :: string where "PatchListeners = ''patchListeners''"

text \<open>\<^verbatim>\<open>Object.keys\<close>, the \<^verbatim>\<open>in\<close> operator and a property read on a plain object. The own
  enumerable properties of a model instance are the accessors that \<^verbatim>\<open>initModelField\<close>
  installs, one for each key of its field table.\<close>

definition obj_keys :: "(string \<times> jsval) list \<Rightarrow> string list" where
  "obj_keys kvs = rev (remdups (rev (map fst kvs)))"

definition obj_get :: "(string \<times> jsval) list \<Rightarrow> string \<Rightarrow> jsval" where
  "obj_get kvs key = (case map_of kvs key of None \<Rightarrow> JUndefined | Some v \<Rightarrow> v)"

fun fields_of :: "(string \<times> jsval) list \<Rightarrow> (string \<times> jsval) list" where
  "fields_of meta = (case getMeta meta Fields (JObj []) of JObj fs \<Rightarrow> fs | _ \<Rightarrow> [])"

fun string_of_nat :: "nat \<Rightarrow> string" where
  "string_of_nat n =
     (if n < 10 then [char_of (48 + n)]
      else string_of_nat (n div 10) @ [char_of (48 + n mod 10)])"

declare string_of_nat.simps [simp del]

fun Object_keys :: "jsval \<Rightarrow> string list" where
  "Object_keys (JObj kvs) = obj_keys kvs"
| "Object_keys (JArr xs) = map string_of_nat [0..<length xs]"
| "Object_keys (JStr cs) = map string_of_nat [0..<length cs]"
| "Object_keys (JModel t cm m) = obj_keys (fields_of m)"
| "Object_keys v = []"

definition has_key :: "string \<Rightarrow> jsval \<Rightarrow> bool" where
  "has_key key v = (key \<in> set (Object_keys v))"

text \<open>\<^verbatim>\<open>key in fields\<close> on a field table. The table is a plain object, so besides its own
  keys the operator finds the properties that every object inherits from
  \<^verbatim>\<open>Object.prototype\<close>; \<^verbatim>\<open>fields[key]\<close> is then the inherited function (or, for
  \<^verbatim>\<open>__proto__\<close>, the prototype), none of which has a property \<^verbatim>\<open>referenceDef\<close>.\<close>

definition Object_prototype :: "string list" where
  "Object_prototype =
     [''constructor'', ''__defineGetter__'', ''__defineSetter__'', ''hasOwnProperty'',
      ''__lookupGetter__'', ''__lookupSetter__'', ''isPrototypeOf'', ''propertyIsEnumerable'',
      ''toString'', ''valueOf'', ''__proto__'', ''toLocaleString'']"

definition js_in :: "string \<Rightarrow> (string \<times> jsval) list \<Rightarrow> bool" where
  "js_in key kvs = (key \<in> set (obj_keys kvs) \<or> key \<in> set Object_prototype)"

section \<open>helpers/model/utils.ts\<close>

fun isModelReference :: "jsval \<Rightarrow> bool" where
  "isModelReference (JArr xs) = list_all isModelReference xs"
| "isModelReference v =
     (typeof_object v \<and> v \<noteq> JNull \<and> has_key ''type'' v \<and> has_key ''id'' v
      \<and> length (Object_keys v) = 2)"

definition bindE :: "error + 'a \<Rightarrow> ('a \<Rightarrow> error + 'b) \<Rightarrow> error + 'b" where
  "bindE m f = (case m of Inl e \<Rightarrow> Inl e | Inr x \<Rightarrow> f x)"

definition ClassFields :: string where "ClassFields = ''fields''"

text \<open>The name of the identifier field and of the type field of a class, and the rest of
  its class-level meta store.\<close>

definition idFieldOf :: "classmeta \<Rightarrow> string" where
  "idFieldOf cm = fst (fst cm)"

definition typeFieldOf :: "classmeta \<Rightarrow> string" where
  "typeFieldOf cm = snd (fst cm)"

definition classStore :: "classmeta \<Rightarrow> (string \<times> jsval) list" where
  "classStore cm = snd cm"

definition referenceDef :: "jsval \<Rightarrow> jsval" where
  "referenceDef fieldDef = (case fieldDef of JObj d \<Rightarrow> obj_get d ''referenceDef'' | _ \<Rightarrow> JUndefined)"

fun getModelId :: "jsval \<Rightarrow> error + jsval" where
  "getModelId (JModel t cm m) =
     (let ident = getMeta m IdField JUndefined
      in if ident \<noteq> JUndefined then Inr ident else Inl (Error ''Model without an ID''))"
| "getModelId v = Inr v"

text \<open>
  Reading the property \<^verbatim>\<open>type\<close> of an instance goes through the accessor that
  \<^verbatim>\<open>initModelField\<close> installed: for the type field it calls \<^verbatim>\<open>getModelType\<close> on the
  instance again, for the identifier field \<^verbatim>\<open>getModelId\<close>, for a reference field it
  reads the bucket stored under \<^verbatim>\<open>ref_type\<close>, and for a plain field the value stored
  under \<^verbatim>\<open>data__type\<close>. \<^verbatim>\<open>getModelType\<close> reads it only for an instance that
  \<^verbatim>\<open>isModelReference\<close> accepts; when \<^verbatim>\<open>type\<close> is the type field the two functions call
  each other without end, which is the error \<^verbatim>\<open>CycleError\<close> here.
\<close>

definition instance_type_prop :: "jsval \<Rightarrow> classmeta \<Rightarrow> (string \<times> jsval) list \<Rightarrow> error + jsval" where
  "instance_type_prop t cm m =
     (if ''type'' = typeFieldOf cm then Inl CycleError
      else if ''type'' = idFieldOf cm then getModelId (JModel t cm m)
      else if truthy (referenceDef (obj_get (fields_of m) ''type''))
        then Inr (getMeta m ''ref_type'' JNull)
      else Inr (getMeta m ''data__type'' JUndefined))"

fun getModelType :: "jsval \<Rightarrow> error + jsval" where
  "getModelType (JClass t cm) = Inr t"
| "getModelType (JFun n) = Inr JUndefined"
| "getModelType (JObj kvs) =
     (if isModelReference (JObj kvs) then Inr (obj_get kvs ''type'') else Inr JUndefined)"
| "getModelType (JArr xs) = Inr JUndefined"
| "getModelType (JModel t cm m) =
     (if isModelReference (JModel t cm m) then instance_type_prop t cm m
      else Inr (js_or (getMeta m TypeField JUndefined) t))"
| "getModelType JCollection = Inr JUndefined"
| "getModelType JNull = Inl TypeError"
| "getModelType v = Inr v"

definition getModelRef :: "jsval \<Rightarrow> error + jsval" where
  "getModelRef model =
     (if instanceofPureModel model
      then bindE (getModelId model) (\<lambda>ident.
           bindE (getModelType model) (\<lambda>type.
           Inr (JObj [(''id'', ident), (''type'', type)])))
      else Inr model)"

definition isReference :: "jsval \<Rightarrow> bool" where
  "isReference model = (\<not> instanceofPureModel model)"


text \<open>A property read \<^verbatim>\<open>v.key\<close> on a value that is not a model instance: a
  \<^verbatim>\<open>TypeError\<close> on \<^verbatim>\<open>null\<close> and \<^verbatim>\<open>undefined\<close>, the stored value on an
  object, the item or the length of a list or a string, \<^verbatim>\<open>undefined\<close> otherwise.\<close>

fun js_prop :: "jsval \<Rightarrow> string \<Rightarrow> error + jsval" where
  "js_prop JUndefined key = Inl TypeError"
| "js_prop JNull key = Inl TypeError"
| "js_prop (JObj kvs) key = Inr (obj_get kvs key)"
| "js_prop (JArr xs) key =
     Inr (if key = ''length'' then JNum (int (length xs))
          else obj_get (zip (map string_of_nat [0..<length xs]) xs) key)"
| "js_prop (JStr cs) key =
     Inr (if key = ''length'' then JNum (int (length cs))
          else obj_get (zip (map string_of_nat [0..<length cs]) (map (\<lambda>c. JStr [c]) cs)) key)"
| "js_prop v key = Inr JUndefined"

text \<open>\<^verbatim>\<open>model[key]\<close> on a value. On a model instance the accessors installed by
  \<^verbatim>\<open>initModelField\<close> and \<^verbatim>\<open>initModelRef\<close> answer: \<^verbatim>\<open>getModelType\<close> for the type
  field, \<^verbatim>\<open>getModelId\<close> for the identifier field, the bucket's value for a reference
  field, the value under \<^verbatim>\<open>data__key\<close> for a plain field.\<close>

definition getProp :: "jsval \<Rightarrow> string \<Rightarrow> error + jsval" where
  "getProp v key =
     (case v of
        JModel t cm m \<Rightarrow>
          (if key \<notin> set (obj_keys (fields_of m)) then Inr JUndefined
           else if key = typeFieldOf cm then getModelType v
           else if key = idFieldOf cm then getModelId v
           else if truthy (referenceDef (obj_get (fields_of m) key))
             then Inr (getMeta m (''ref_'' @ key) JNull)
           else Inr (getMeta m (''data__'' @ key) JUndefined))
      | _ \<Rightarrow> js_prop v key)"

text \<open>Modelled from the spec: \<^verbatim>\<open>mapItems\<close> of the utilities package (not among the
  sources). A list is mapped item-wise, \<^verbatim>\<open>null\<close> and \<^verbatim>\<open>undefined\<close> give \<^verbatim>\<open>null\<close>, any
  other value is passed to the function.\<close>

fun mapE :: "('a \<Rightarrow> error + 'b) \<Rightarrow> 'a list \<Rightarrow> error + 'b list" where
  "mapE f [] = Inr []"
| "mapE f (x # xs) = bindE (f x) (\<lambda>y. bindE (mapE f xs) (\<lambda>ys. Inr (y # ys)))"

definition mapItems :: "jsval \<Rightarrow> (jsval \<Rightarrow> error + jsval) \<Rightarrow> error + jsval" where
  "mapItems data fn =
     (case data of
        JArr xs \<Rightarrow> bindE (mapE fn xs) (\<lambda>ys. Inr (JArr ys))
      | JNull \<Rightarrow> Inr JNull
      | JUndefined \<Rightarrow> Inr JNull
      | _ \<Rightarrow> fn data)"

section \<open>The collection and the state of a call\<close>

text \<open>
  Modelled from the spec: the Identity Registry (\<^verbatim>\<open>PureCollection\<close>, which is not among
  the sources). It holds one entry per (type, id), in insertion order, the model classes
  registered with it (one field schema per type), and the counter from which a model
  without identifier receives a locally generated negative one.
\<close>

record registry =
  entries :: "((jsval \<times> jsval) \<times> jsval) list"
  types :: "jsval list"
  autoIdValue :: int

text \<open>Modelled from the spec: \<^verbatim>\<open>find(type, id)\<close> gives the entity registered under
  (type, id) or nothing; \<^verbatim>\<open>find(entityOrRef)\<close> takes the pair from a placeholder or from
  a concrete entity.\<close>

definition findOne :: "registry \<Rightarrow> jsval \<Rightarrow> jsval \<Rightarrow> jsval option" where
  "findOne r type ident = map_of (entries r) (type, ident)"

definition findOneRef :: "registry \<Rightarrow> jsval \<Rightarrow> jsval option" where
  "findOneRef r item =
     (case item of
        JObj kvs \<Rightarrow> findOne r (obj_get kvs ''type'') (obj_get kvs ''id'')
      | JModel t cm m \<Rightarrow>
          (case (getModelType item, getModelId item) of
             (Inr type, Inr ident) \<Rightarrow> findOne r type ident
           | _ \<Rightarrow> None)
      | _ \<Rightarrow> None)"

text \<open>
  The calls into the patch tracker (\<^verbatim>\<open>startAction\<close>, \<^verbatim>\<open>endAction\<close>,
  \<^verbatim>\<open>updateSingleAction\<close>, \<^verbatim>\<open>commitModel\<close>) and \<^verbatim>\<open>warn\<close> are recorded in a log,
  in the order in which they are made.
\<close>

datatype event =
    StartAction
  | EndAction
  | UpdateSingleAction string jsval
  | CommitModel
  | Warn string

text \<open>
  A helper works on one model instance, whose class never changes and whose meta store it
  mutates in place, and on the collection. The state of a call is the meta store of that
  instance, the collection and the log; an exception leaves the state as it was when it
  was thrown.
\<close>

record world =
  self :: "(string \<times> jsval) list"
  reg :: registry
  log :: "event list"

type_synonym 'a M = "world \<Rightarrow> (error + 'a) \<times> world"

definition returnM :: "'a \<Rightarrow> 'a M" where
  "returnM x w = (Inr x, w)"

definition throwM :: "error \<Rightarrow> 'a M" where
  "throwM e w = (Inl e, w)"

definition bindM :: "'a M \<Rightarrow> ('a \<Rightarrow> 'b M) \<Rightarrow> 'b M" where
  "bindM m f w = (case m w of (Inl e, w') \<Rightarrow> (Inl e, w') | (Inr x, w') \<Rightarrow> f x w')"

definition liftE :: "error + 'a \<Rightarrow> 'a M" where
  "liftE v w = (v, w)"

definition setMetaM :: "string \<Rightarrow> jsval \<Rightarrow> unit M" where
  "setMetaM key v w = (Inr (), w\<lparr>self := setMeta (self w) key v\<rparr>)"

definition emit :: "event \<Rightarrow> unit M" where
  "emit ev w = (Inr (), w\<lparr>log := log w @ [ev]\<rparr>)"

definition onRegistry :: "(registry \<Rightarrow> (error + 'a) \<times> registry) \<Rightarrow> 'a M" where
  "onRegistry f w = (case f (reg w) of (res, r') \<Rightarrow> (res, w\<lparr>reg := r'\<rparr>))"

fun forEachM :: "'a list \<Rightarrow> ('a \<Rightarrow> unit M) \<Rightarrow> unit M" where
  "forEachM [] f = returnM ()"
| "forEachM (x # xs) f = bindM (f x) (\<lambda>_. forEachM xs f)"

fun mapM :: "('a \<Rightarrow> 'b M) \<Rightarrow> 'a list \<Rightarrow> 'b list M" where
  "mapM f [] = returnM []"
| "mapM f (x # xs) = bindM (f x) (\<lambda>y. bindM (mapM f xs) (\<lambda>ys. returnM (y # ys)))"

definition mapItemsM :: "jsval \<Rightarrow> (jsval \<Rightarrow> jsval M) \<Rightarrow> jsval M" where
  "mapItemsM data fn =
     (case data of
        JArr xs \<Rightarrow> bindM (mapM fn xs) (\<lambda>ys. returnM (JArr ys))
      | JNull \<Rightarrow> returnM JNull
      | JUndefined \<Rightarrow> returnM JNull
      | _ \<Rightarrow> fn data)"

text \<open>
  What the helpers call and the sources do not hold: \<^verbatim>\<open>collection.add\<close>, the functions
  that compute the target model of a reference (\<^verbatim>\<open>FunctionRefModel\<close>, called with the
  data, the parent model, the key and the collection), and \<^verbatim>\<open>updateBackRef\<close>, which
  rewrites the forward references of other entities of the collection.
\<close>

record env =
  collection_add :: "jsval \<Rightarrow> jsval \<Rightarrow> registry \<Rightarrow> (error + jsval) \<times> registry"
  ref_model_fn :: "nat \<Rightarrow> jsval \<Rightarrow> jsval \<Rightarrow> string \<Rightarrow> registry option \<Rightarrow> jsval"
  updateBackRef :: "jsval \<Rightarrow> string \<Rightarrow> jsval \<Rightarrow> registry \<Rightarrow> (error + unit) \<times> registry"

section \<open>helpers/model/init.ts\<close>

definition getModelRefType ::
  "env \<Rightarrow> jsval \<Rightarrow> jsval \<Rightarrow> jsval \<Rightarrow> string \<Rightarrow> registry option \<Rightarrow> error + jsval" where
  "getModelRefType E model data parentModel key collection =
     (case model of
        JFun n \<Rightarrow> getModelType (ref_model_fn E n data parentModel key collection)
      | JClass t cm \<Rightarrow> Inl TypeError
      | _ \<Rightarrow> Inr model)"

text \<open>\<^verbatim>\<open>fieldDef.referenceDef.model\<close>\<close>

definition refModelOf :: "jsval \<Rightarrow> error + jsval" where
  "refModelOf fieldDef = bindE (js_prop fieldDef ''referenceDef'') (\<lambda>rd. js_prop rd ''model'')"

text \<open>The function that \<^verbatim>\<open>getRefValue\<close> maps over the items. \<^verbatim>\<open>collection\<close> is the
  collection of the model (\<^verbatim>\<open>undefined\<close> for a detached one); the optional chaining
  \<^verbatim>\<open>collection?.add(...)\<close> evaluates nothing when there is none.\<close>

definition getRefItem :: "env \<Rightarrow> jsval \<Rightarrow> jsval \<Rightarrow> jsval \<Rightarrow> string \<Rightarrow> jsval \<Rightarrow> jsval M" where
  "getRefItem E collection fieldDef model key item =
     (if item = JNull \<or> item = JUndefined then returnM JNull
      else if typeof_object item \<and> \<not> isModelReference item then
        (if collection = JUndefined \<or> collection = JNull then returnM JNull
         else (\<lambda>w.
           bindM (liftE (bindE (refModelOf fieldDef)
                    (\<lambda>m. getModelRefType E m item model key (Some (reg w)))))
             (\<lambda>type. bindM (onRegistry (collection_add E item type))
               (\<lambda>added. returnM (js_or added JNull))) w))
      else if typeof_object item \<and> isModelReference item then
        (if collection = JUndefined \<or> collection = JNull then returnM item
         else (\<lambda>w. returnM (js_or (case findOneRef (reg w) item of Some e \<Rightarrow> e
                                     | None \<Rightarrow> JUndefined) item) w))
      else
        (\<lambda>w.
          (if collection = JUndefined \<or> collection = JNull
           then bindM (liftE (bindE (refModelOf fieldDef)
                    (\<lambda>m. getModelRefType E m item model key None)))
                  (\<lambda>type. returnM (JObj [(''id'', item), (''type'', type)])) w
           else bindM (liftE (bindE (refModelOf fieldDef)
                    (\<lambda>m. getModelRefType E m item model key (Some (reg w)))))
                  (\<lambda>type.
                     if truthy (case findOne (reg w) type item of Some e \<Rightarrow> e
                                | None \<Rightarrow> JUndefined)
                     then returnM (case findOne (reg w) type item of Some e \<Rightarrow> e
                                   | None \<Rightarrow> JUndefined)
                     else bindM (liftE (bindE (refModelOf fieldDef)
                           (\<lambda>m. getModelRefType E m item model key (Some (reg w)))))
                         (\<lambda>type'. returnM (JObj [(''id'', item), (''type'', type')]))) w)))"

definition getRefValue :: "env \<Rightarrow> jsval \<Rightarrow> jsval \<Rightarrow> jsval \<Rightarrow> jsval \<Rightarrow> string \<Rightarrow> jsval M" where
  "getRefValue E v collection fieldDef model key =
     mapItemsM v (getRefItem E collection fieldDef model key)"


text \<open>The enum \<^verbatim>\<open>ReferenceType\<close>.\<close>

definition TO_ONE :: jsval where "TO_ONE = JNum 0"
definition TO_MANY :: jsval where "TO_MANY = JNum 1"
definition TO_ONE_OR_MANY :: jsval where "TO_ONE_OR_MANY = JNum 2"

text \<open>
  Modelled from the spec: the Reference Bucket (the bucket classes and \<^verbatim>\<open>updateRef\<close> are
  not among the sources). A bucket holds a single entity or placeholder, or an ordered list
  of them: a to-one bucket holds 0-or-1 item, a to-many bucket always holds a list, a
  to-one-or-many bucket accepts either. The meta entry \<^verbatim>\<open>ref_key\<close> holds what the bucket
  holds; its snapshot is \<^verbatim>\<open>{id, type}\<close> or a list thereof.
\<close>

definition newBucket :: "jsval \<Rightarrow> jsval \<Rightarrow> string \<Rightarrow> error + jsval" where
  "newBucket rtype v key =
     (if rtype = TO_ONE then (if isArrayLike v then Inl (Error (REF_SINGLE key)) else Inr v)
      else if rtype = TO_MANY then
        (if isArrayLike v then Inr v
         else if v = JNull \<or> v = JUndefined then Inr (JArr [])
         else Inl (Error (REF_ARRAY key)))
      else if rtype = TO_ONE_OR_MANY then Inr v
      else Inl TypeError)"

text \<open>Modelled from the spec: the snapshot of a bucket (\<^verbatim>\<open>bucket.snapshot\<close>), \<open>{id, type}\<close>
  for each item it holds.\<close>

definition bucket_snapshot :: "jsval \<Rightarrow> error + jsval" where
  "bucket_snapshot bucket = mapItems bucket getModelRef"

definition REF_NEEDS_INIT :: "string \<Rightarrow> string" where
  "REF_NEEDS_INIT key =
     ''The reference '' @ key @ '' needs to be initialized first using the initModelRef function.''"

text \<open>Modelled from the spec: \<^verbatim>\<open>updateRef\<close> (not among the sources) gives the bucket of
  an initialised reference the new value, under the arity of the field.\<close>

definition updateRef :: "jsval \<Rightarrow> string \<Rightarrow> jsval \<Rightarrow> unit M" where
  "updateRef rtype key v w =
     (if getMeta (self w) (''ref_'' @ key) JUndefined = JUndefined
      then throwM (Error (REF_NEEDS_INIT key)) w
      else bindM (liftE (newBucket rtype v key)) (\<lambda>bucket. setMetaM (''ref_'' @ key) bucket) w)"

text \<open>\<^verbatim>\<open>fields[key] = {referenceDef}\<close> in \<^verbatim>\<open>initModelRef\<close>: the field table is the object
  stored in the meta store, if one is stored; otherwise it is the default \<^verbatim>\<open>{}\<close> that
  \<^verbatim>\<open>getMeta\<close> handed out, which nothing keeps.\<close>

definition setField :: "string \<Rightarrow> jsval \<Rightarrow> unit M" where
  "setField key d w =
     (case getMeta (self w) Fields JUndefined of
        JObj fs \<Rightarrow> setMetaM Fields (JObj (AList.update key d fs)) w
      | _ \<Rightarrow> returnM () w)"

definition initModelRef :: "env \<Rightarrow> jsval \<Rightarrow> classmeta \<Rightarrow> string \<Rightarrow> jsval \<Rightarrow> jsval \<Rightarrow> unit M" where
  "initModelRef E t cm key refDef initialVal w =
     (let fields = fields_of (self w);
          fieldDef = js_or (obj_get fields key) (JObj [(''referenceDef'', refDef)]);
          collection = getMeta (self w) Collection JUndefined
      in if \<not> truthy collection \<and> truthy initialVal then throwM (Error NOT_IN_COLLECTION) w
         else
           bindM (if truthy refDef then setField key (JObj [(''referenceDef'', refDef)])
                  else returnM ())
           (\<lambda>_. bindM (liftE (js_prop fieldDef ''referenceDef''))
           (\<lambda>rd. bindM (liftE (js_prop rd ''property''))
           (\<lambda>property.
              if truthy property then returnM ()
              else
                bindM (liftE (js_prop rd ''type''))
                (\<lambda>rtype.
                   bindM (if initialVal \<noteq> JNull \<and> initialVal \<noteq> JUndefined
                          then (\<lambda>w'. getRefValue E initialVal collection fieldDef
                                        (JModel t cm (self w')) key w')
                          else returnM (if rtype = TO_MANY then JArr [] else JNull))
                   (\<lambda>v. bindM (liftE (newBucket rtype v key))
                   (\<lambda>bucket. bindM (emit (UpdateSingleAction key bucket))
                   (\<lambda>_. setMetaM (''ref_'' @ key) bucket))))))) w)"

text \<open>The setters that \<^verbatim>\<open>initModelRef\<close> and \<^verbatim>\<open>initModelField\<close> install, and
  \<^verbatim>\<open>model[key] = value\<close>, which runs the setter of the key.\<close>

definition setRef :: "env \<Rightarrow> jsval \<Rightarrow> classmeta \<Rightarrow> string \<Rightarrow> jsval \<Rightarrow> jsval \<Rightarrow> unit M" where
  "setRef E t cm key fieldDef newValue w =
     (let modelCollection = getMeta (self w) Collection JUndefined
      in if \<not> truthy modelCollection \<and> truthy newValue then throwM (Error NOT_IN_COLLECTION) w
         else
           bindM (emit (UpdateSingleAction key newValue))
           (\<lambda>_. bindM (getRefValue E newValue modelCollection fieldDef (JModel t cm (self w)) key)
           (\<lambda>v. bindM (liftE (bindE (js_prop fieldDef ''referenceDef'') (\<lambda>rd. js_prop rd ''type'')))
           (\<lambda>rtype. updateRef rtype key v))) w)"

definition setPlain :: "string \<Rightarrow> jsval \<Rightarrow> unit M" where
  "setPlain key newValue =
     bindM (emit (UpdateSingleAction key newValue)) (\<lambda>_. setMetaM (''data__'' @ key) newValue)"

definition setProp :: "env \<Rightarrow> jsval \<Rightarrow> classmeta \<Rightarrow> string \<Rightarrow> jsval \<Rightarrow> unit M" where
  "setProp E t cm key v w =
     (let fieldDef = obj_get (fields_of (self w)) key
      in if key = typeFieldOf cm
           then throwM (Error ''Model type can't be changed after initialization.'') w
         else if key = idFieldOf cm
           then throwM (Error ''Model ID can't be updated directly. Use the `updateModelId` helper function instead.'') w
         else
           bindM (liftE (js_prop fieldDef ''referenceDef''))
           (\<lambda>rd. if truthy rd then
                   bindM (liftE (js_prop rd ''property''))
                   (\<lambda>property.
                      if truthy property
                      then onRegistry (updateBackRef E (JModel t cm (self w)) key v)
                      else setRef E t cm key fieldDef v)
                 else setPlain key v) w)"

definition initModelField :: "env \<Rightarrow> jsval \<Rightarrow> classmeta \<Rightarrow> string \<Rightarrow> jsval \<Rightarrow> unit M" where
  "initModelField E t cm key v w =
     (let fields = fields_of (self w);
          fieldDef = obj_get fields key
      in if key = typeFieldOf cm then returnM () w
         else if key = idFieldOf cm then returnM () w
         else
           bindM (liftE (js_prop fieldDef ''referenceDef''))
           (\<lambda>rd. if truthy rd then initModelRef E t cm key JUndefined v
                 else bindM (setMetaM (''data__'' @ key) JUndefined) (\<lambda>_. setPlain key v)) w)"


text \<open>Modelled from the spec: \<^verbatim>\<open>peekNonNullish\<close> of the utilities package (not among the
  sources), which picks the type and the identifier of a new entity: the first argument
  that is neither \<^verbatim>\<open>null\<close> nor \<^verbatim>\<open>undefined\<close>, \<^verbatim>\<open>null\<close> when there is none.\<close>

fun peekNonNullish :: "jsval list \<Rightarrow> jsval" where
  "peekNonNullish [] = JNull"
| "peekNonNullish (v # vs) = (if v = JNull \<or> v = JUndefined then peekNonNullish vs else v)"

text \<open>Modelled from the spec: \<^verbatim>\<open>getAutoId\<close> of the model class (not among the sources)
  hands out a locally generated negative identifier.\<close>

definition getAutoId :: "registry \<Rightarrow> (error + jsval) \<times> registry" where
  "getAutoId r = (Inr (JNum (autoIdValue r - 1)), r\<lparr>autoIdValue := autoIdValue r - 1\<rparr>)"

text \<open>\<^verbatim>\<open>v?.key\<close>\<close>

definition opt_prop :: "jsval \<Rightarrow> string \<Rightarrow> error + jsval" where
  "opt_prop v key = (if v = JNull \<or> v = JUndefined then Inr JUndefined else getProp v key)"

definition ClassMapField :: string where "ClassMapField = ''map''"

definition first_item :: "jsval \<Rightarrow> jsval" where
  "first_item v = (case v of JArr (x # xs) \<Rightarrow> x | _ \<Rightarrow> JUndefined)"

text \<open>The test \<^verbatim>\<open>isRef\<close> of \<^verbatim>\<open>initModel\<close> for the value of a field that no schema
  declares.\<close>

definition isRef :: "jsval \<Rightarrow> bool" where
  "isRef v =
     (instanceofPureModel v
      \<or> (isArrayLike v \<and> v \<noteq> JArr []
          \<and> (instanceofPureModel (first_item v) \<or> isModelReference (first_item v)))
      \<or> isModelReference v)"

definition newFieldDef :: "jsval \<Rightarrow> error + jsval" where
  "newFieldDef v =
     (if isRef v
      then bindE (getModelType v) (\<lambda>type.
             Inr (JObj [(''referenceDef'', JObj [(''type'', TO_ONE_OR_MANY), (''model'', type)])]))
      else Inr (JObj [(''referenceDef'', JBool False)]))"

fun addNewFields ::
  "jsval \<Rightarrow> jsval list \<Rightarrow> string list \<Rightarrow> (string \<times> jsval) list \<Rightarrow> error + (string \<times> jsval) list" where
  "addNewFields rawData skipMapped [] fds = Inr fds"
| "addNewFields rawData skipMapped (field # rest) fds =
     bindE (getProp rawData field) (\<lambda>v.
     bindE (newFieldDef v) (\<lambda>d.
       addNewFields rawData skipMapped rest
         (if JStr field \<in> set skipMapped then fds else AList.update field d fds)))"

text \<open>\<^verbatim>\<open>Object.assign({}, a, b)\<close> on the entries of two objects.\<close>

definition obj_assign :: "(string \<times> jsval) list \<Rightarrow> (string \<times> jsval) list \<Rightarrow> (string \<times> jsval) list" where
  "obj_assign a b = fold (\<lambda>(k, v) acc. AList.update k v acc) (a @ b) []"

definition entries_of :: "jsval \<Rightarrow> (string \<times> jsval) list" where
  "entries_of v = (case v of JObj kvs \<Rightarrow> kvs | _ \<Rightarrow> [])"

text \<open>Modelled from the spec: \<^verbatim>\<open>modelMapParse\<close> (not among the sources) for a class
  that declares neither a mapping nor a parser, so that a field takes its raw value or its
  default: the value of \<^verbatim>\<open>{[fieldName]: fieldDef.defaultValue, ...rawData}\<close> at the field
  name.\<close>

definition modelMapParse :: "jsval \<Rightarrow> jsval \<Rightarrow> string \<Rightarrow> error + jsval" where
  "modelMapParse rawData fieldDef fieldName =
     bindE (js_prop fieldDef ''defaultValue'') (\<lambda>dflt.
       if fieldName \<in> set (Object_keys rawData) then getProp rawData fieldName else Inr dflt)"

definition initModel :: "env \<Rightarrow> jsval \<Rightarrow> classmeta \<Rightarrow> jsval \<Rightarrow> jsval \<Rightarrow> unit M" where
  "initModel E t cm rawData collection =
     (let modelClassFields = entries_of (getMeta (classStore cm) ClassFields (JObj []))
      in bindM (liftE (opt_prop rawData META_FIELD))
      (\<lambda>modelMeta. bindM (liftE (opt_prop modelMeta ''fields''))
      (\<lambda>metaFields.
         let fields0 = obj_assign modelClassFields (entries_of metaFields)
         in bindM (setMetaM Collection collection)
         (\<lambda>_. bindM (liftE (getProp rawData (typeFieldOf cm)))
         (\<lambda>rawType. bindM (liftE (opt_prop modelMeta ''type''))
         (\<lambda>metaType. bindM (setMetaM TypeField (peekNonNullish [rawType, metaType, t]))
         (\<lambda>_. bindM (liftE (getProp rawData (idFieldOf cm)))
         (\<lambda>rawId. bindM (liftE (opt_prop modelMeta ''id''))
         (\<lambda>metaId.
            bindM (if peekNonNullish [rawId, metaId] = JNull then onRegistry getAutoId
                   else returnM (peekNonNullish [rawId, metaId]))
         (\<lambda>ident. bindM (setMetaM IdField ident)
         (\<lambda>_. bindM (liftE (opt_prop modelMeta ''originalId''))
         (\<lambda>originalId. bindM (setMetaM OriginalId originalId)
         (\<lambda>_.
            let skipMapped = map (\<lambda>fieldName. getMeta (classStore cm) (ClassMapField @ ''_'' @ fieldName) (JStr []))
                               (obj_keys fields0);
                newKeys = filter (\<lambda>field. \<not> js_in field fields0)
                            (filter (\<lambda>field. field \<noteq> META_FIELD) (Object_keys rawData))
            in bindM (liftE (addNewFields rawData skipMapped newKeys fields0))
            (\<lambda>fields. bindM (setMetaM Fields (JObj fields))
            (\<lambda>_. bindM (forEachM (obj_keys fields) (\<lambda>fieldName.
                      bindM (liftE (modelMapParse rawData (obj_get fields fieldName) fieldName))
                        (\<lambda>v. initModelField E t cm fieldName v)))
            (\<lambda>_. emit CommitModel))))))))))))))))"

text \<open>Modelled from the spec: construction of an entity (the constructor of \<^verbatim>\<open>PureModel\<close>
  is not among the sources) takes raw field data plus an optional owning registry and runs
  \<^verbatim>\<open>initModel\<close> on the new instance.\<close>

definition construct :: "env \<Rightarrow> jsval \<Rightarrow> classmeta \<Rightarrow> jsval \<Rightarrow> jsval \<Rightarrow> registry \<Rightarrow> (error + jsval) \<times> registry" where
  "construct E t cm rawData collection r =
     (case initModel E t cm rawData collection \<lparr>self = [], reg = r, log = []\<rparr> of
        (Inl e, w) \<Rightarrow> (Inl e, reg w)
      | (Inr u, w) \<Rightarrow> (Inr (JModel t cm (self w)), reg w))"


section \<open>helpers/model/utils.ts, continued\<close>

definition INTERNAL_META :: "string list" where
  "INTERNAL_META =
     [Patch, PatchListeners, Collection, OriginalId, ''get__'', ''set__'', ''data__'', ''ref_'']"

definition startsWith :: "string \<Rightarrow> string \<Rightarrow> bool" where
  "startsWith key match = (take (length match) key = match)"

text \<open>The loop of \<^verbatim>\<open>modelToJSON\<close> over the field table.\<close>

fun fieldsToJSON :: "jsval \<Rightarrow> string list \<Rightarrow> (string \<times> jsval) list \<Rightarrow> error + (string \<times> jsval) list" where
  "fieldsToJSON model [] raw = Inr raw"
| "fieldsToJSON model (fieldName # rest) raw =
     (case model of
        JModel t cm m \<Rightarrow>
          bindE (js_prop (obj_get (fields_of m) fieldName) ''referenceDef'') (\<lambda>rd.
          bindE (if truthy rd then
                   (let bucket = getMeta m (''ref_'' @ fieldName) JUndefined
                    in if bucket = JUndefined then Inr JNull
                       else bindE (bucket_snapshot bucket) (\<lambda>snap. Inr (js_or snap JNull)))
                 else getProp model fieldName) (\<lambda>v.
          fieldsToJSON model rest (AList.update fieldName v raw)))
      | _ \<Rightarrow> Inl TypeError)"

definition modelToJSON :: "jsval \<Rightarrow> error + jsval" where
  "modelToJSON model =
     (case model of
        JModel t cm m \<Rightarrow>
          (let metaKeys = filter (\<lambda>key. \<not> list_ex (\<lambda>match. startsWith key match) INTERNAL_META)
                            (obj_keys m)
           in bindE (getModelId model) (\<lambda>ident.
              bindE (getModelType model) (\<lambda>type.
              bindE (fieldsToJSON model (obj_keys (fields_of m))
                [(META_FIELD,
                  JObj (AList.update Collection JUndefined
                         (AList.update TypeField type
                           (AList.update IdField ident
                             (map (\<lambda>key. (key, obj_get m key)) metaKeys)))))])
                (\<lambda>raw. Inr (JObj raw)))))
      | _ \<Rightarrow> Inl TypeError)"

definition NOT_IN_COLLECTION_WARNING :: string where
  "NOT_IN_COLLECTION_WARNING =
     ''The model is not in the collection. Referencing the original model won't be possible''"

text \<open>
  \<^verbatim>\<open>const meta = rawData[META_FIELD] || {}; meta[OriginalId] = meta[IdField]; delete
  meta[IdField]\<close> on the serialised model. What \<^verbatim>\<open>modelToJSON\<close> stored under the meta
  key is an object, unless a field of the model has that name: a falsy value there is
  replaced by a fresh object that the raw data never sees, and writing a property into
  any other value that is not an object throws a \<^verbatim>\<open>TypeError\<close>.
\<close>

definition cloneRawData :: "jsval \<Rightarrow> error + jsval" where
  "cloneRawData rawData =
     (let stored = obj_get (entries_of rawData) META_FIELD
      in if \<not> truthy stored then Inr rawData
         else
           (case stored of
              JObj meta \<Rightarrow>
                Inr (JObj (AList.update META_FIELD
                      (JObj (AList.delete IdField
                              (AList.update OriginalId (obj_get meta IdField) meta)))
                      (entries_of rawData)))
            | _ \<Rightarrow> Inl TypeError))"

definition cloneModel :: "env \<Rightarrow> jsval \<Rightarrow> classmeta \<Rightarrow> jsval M" where
  "cloneModel E t cm w =
     (let model = JModel t cm (self w)
      in bindM (liftE (modelToJSON model))
      (\<lambda>rawData. bindM (liftE (cloneRawData rawData))
      (\<lambda>cloned.
         let collection = getMeta (self w) Collection JUndefined
         in if truthy collection
            then bindM (liftE (getModelType model))
                   (\<lambda>modelType. onRegistry (collection_add E cloned modelType))
            else bindM (emit (Warn NOT_IN_COLLECTION_WARNING))
                   (\<lambda>_. onRegistry (construct E t cm cloned JUndefined)))) w)"

definition READ_ONLY_META :: "string list" where
  "READ_ONLY_META = [Fields, IdField, TypeField]"

definition omitKeys :: "jsval \<Rightarrow> string list \<Rightarrow> (string \<times> jsval) list" where
  "omitKeys obj keys =
     map (\<lambda>key. (key, obj_get (entries_of obj) key))
       (filter (\<lambda>key. key \<notin> set keys) (Object_keys obj))"

text \<open>\<^verbatim>\<open>Array.from(new Set(x))\<close>: the distinct items of a list in their order, the distinct
  characters of a string, nothing for \<^verbatim>\<open>null\<close> and \<^verbatim>\<open>undefined\<close>; any other value is
  not iterable, and \<^verbatim>\<open>new Set\<close> throws a \<^verbatim>\<open>TypeError\<close>.\<close>

definition arrayFromSet :: "jsval \<Rightarrow> error + jsval" where
  "arrayFromSet x =
     (case x of
        JArr xs \<Rightarrow> Inr (JArr (rev (remdups (rev xs))))
      | JStr cs \<Rightarrow> Inr (JArr (map (\<lambda>c. JStr [c]) (rev (remdups (rev cs)))))
      | JNull \<Rightarrow> Inr (JArr [])
      | JUndefined \<Rightarrow> Inr (JArr [])
      | _ \<Rightarrow> Inl TypeError)"

definition shouldBeReference :: "jsval \<Rightarrow> bool" where
  "shouldBeReference v =
     ((isArrayLike v \<and> instanceofPureModel (first_item v)) \<or> instanceofPureModel v)"

text \<open>\<^verbatim>\<open>extendObservable(fields, {[key]: def})\<close> followed by
  \<^verbatim>\<open>setMeta(model, MetaModelField.Fields, fields)\<close>.\<close>

definition extendFields :: "string \<Rightarrow> jsval \<Rightarrow> unit M" where
  "extendFields key d w = setMetaM Fields (JObj (AList.update key d (fields_of (self w)))) w"

text \<open>The model of \<^verbatim>\<open>assignModel\<close> is the instance whose meta store the state holds, so
  its first check, that the model is an instance of \<^verbatim>\<open>PureModel\<close>, never throws. For a
  key that the field table only inherits, \<^verbatim>\<open>model[key] = value\<close> meets no accessor of
  the instance: it writes a property that is neither a field nor a meta entry, and
  neither the meta store nor the log changes.\<close>

definition assignModel :: "env \<Rightarrow> jsval \<Rightarrow> classmeta \<Rightarrow> string \<Rightarrow> jsval \<Rightarrow> unit M" where
  "assignModel E t cm key v w =
     (let fds = fields_of (self w)
      in if js_in key fds then
           bindM (liftE (if shouldBeReference v
                         then bindE (if key \<in> set (obj_keys fds)
                                     then js_prop (obj_get fds key) ''referenceDef''
                                     else Inr JUndefined)
                                (\<lambda>rd. if \<not> truthy rd then Inl (Error NO_REFS) else Inr ())
                         else Inr ()))
             (\<lambda>_. if key \<in> set (obj_keys fds) then setProp E t cm key v else returnM ()) w
         else
           bindM (if shouldBeReference v then
                    bindM (liftE (bindE (mapItems v getModelType) arrayFromSet))
                      (\<lambda>models. extendFields key
                         (JObj [(''referenceDef'',
                                 JObj [(''type'', TO_ONE_OR_MANY), (''models'', models)])]))
                  else extendFields key (JObj [(''referenceDef'', JBool False)]))
             (\<lambda>_. initModelField E t cm key v) w)"

text \<open>Modelled from the spec: \<^verbatim>\<open>mergeMeta\<close> of the utilities package (not among the
  sources). Every entry of the object is stored in the meta store of the model.\<close>

definition mergeMeta :: "(string \<times> jsval) list \<Rightarrow> unit M" where
  "mergeMeta kvs = forEachM kvs (\<lambda>(key, v). setMetaM key v)"

definition Object_keysE :: "jsval \<Rightarrow> error + string list" where
  "Object_keysE v = (if v = JNull \<or> v = JUndefined then Inl TypeError else Inr (Object_keys v))"

text \<open>What \<^verbatim>\<open>updateModel\<close> does between \<^verbatim>\<open>startAction\<close> and \<^verbatim>\<open>endAction\<close>.\<close>

definition updateFields :: "env \<Rightarrow> jsval \<Rightarrow> classmeta \<Rightarrow> jsval \<Rightarrow> unit M" where
  "updateFields E t cm data =
     (let modelId = idFieldOf cm;
          modelType = typeFieldOf cm
      in bindM (liftE (if instanceofPureModel data
                       then bindE (modelToJSON data) Object_keysE
                       else Object_keysE data))
      (\<lambda>keys. bindM (liftE (getProp data META_FIELD))
      (\<lambda>dataMeta. bindM (mergeMeta (omitKeys (js_or dataMeta (JObj [])) READ_ONLY_META))
      (\<lambda>_. forEachM keys (\<lambda>key.
                if key \<noteq> META_FIELD \<and> key \<noteq> modelId \<and> key \<noteq> modelType
                then bindM (liftE (getProp data key)) (\<lambda>v. assignModel E t cm key v)
                else if key = META_FIELD
                then bindM (liftE (getProp data key))
                  (\<lambda>dm. forEachM (Object_keys (js_or dm (JObj [])))
                     (\<lambda>metaKey.
                        if metaKey \<notin> set READ_ONLY_META
                        then bindM (liftE (getProp dm metaKey)) (\<lambda>mv. setMetaM metaKey mv)
                        else returnM ()))
                else returnM ())))))"

definition updateModel :: "env \<Rightarrow> jsval \<Rightarrow> classmeta \<Rightarrow> jsval \<Rightarrow> unit M" where
  "updateModel E t cm data =
     bindM (emit StartAction)
       (\<lambda>_. bindM (updateFields E t cm data) (\<lambda>_. emit EndAction))"

section \<open>The collection's add\<close>

text \<open>
  Modelled from the spec: \<^verbatim>\<open>add(rawData, type)\<close> of the Identity Registry
  (\<^verbatim>\<open>PureCollection\<close> is not among the sources). If a prior entity of the same (type, id)
  exists, it is the error \<^verbatim>\<open>MODEL_EXISTS\<close>; otherwise it constructs a new entity of the
  class registered for the type, registers it by (type, id), and returns it; without a class
  for the type it is an error. The identifier of raw data is the one \<^verbatim>\<open>initModel\<close> will
  give the entity: the value under the identifier field of the class, else the identifier
  of its meta object, else the next generated one.
  An entity instance that is given instead of raw data is registered as it is, with its
  collection set, unless its (type, id) is there already, in which case the registered
  entity is returned.
\<close>

text \<open>Modelled from the spec: the class that holds the field schema of a type.\<close>

definition classOf :: "registry \<Rightarrow> jsval \<Rightarrow> (jsval \<times> classmeta) option" where
  "classOf r type =
     (case filter (\<lambda>c. case c of JClass t cm \<Rightarrow> t = type | _ \<Rightarrow> False) (types r) of
        JClass t cm # rest \<Rightarrow> Some (t, cm)
      | _ \<Rightarrow> None)"

text \<open>Modelled from the spec: the identifier under which raw data will be registered.\<close>

definition rawIdOf :: "registry \<Rightarrow> jsval \<Rightarrow> jsval \<Rightarrow> error + jsval" where
  "rawIdOf r rawData type =
     (case classOf r type of
        None \<Rightarrow> Inl (Error UNDEFINED_MODEL)
      | Some (t, cm) \<Rightarrow>
          bindE (getProp rawData (idFieldOf cm)) (\<lambda>rawId.
          bindE (opt_prop rawData META_FIELD) (\<lambda>modelMeta.
          bindE (opt_prop modelMeta ''id'') (\<lambda>metaId.
            Inr (if peekNonNullish [rawId, metaId] = JNull then JNum (autoIdValue r - 1)
                 else peekNonNullish [rawId, metaId])))))"

text \<open>Modelled from the spec: registration by (type, id), one entry per pair.\<close>

definition register :: "jsval \<Rightarrow> jsval \<Rightarrow> jsval \<Rightarrow> registry \<Rightarrow> (error + jsval) \<times> registry" where
  "register type ident entity r =
     (if findOne r type ident \<noteq> None then (Inl (Error MODEL_EXISTS), r)
      else (Inr entity, r\<lparr>entries := entries r @ [((type, ident), entity)]\<rparr>))"

text \<open>Modelled from the spec: one call of \<^verbatim>\<open>add\<close>, given the \<^verbatim>\<open>add\<close> that the
  construction of the entity calls for the inline objects inside the raw data.\<close>

definition add_step :: "env \<Rightarrow> jsval \<Rightarrow> jsval \<Rightarrow> registry \<Rightarrow> (error + jsval) \<times> registry" where
  "add_step E data type r =
     (case data of
        JModel t cm m \<Rightarrow>
          (case bindE (getModelType data) (\<lambda>ty. bindE (getModelId data) (\<lambda>i. Inr (ty, i))) of
             Inl e \<Rightarrow> (Inl e, r)
           | Inr (ty, i) \<Rightarrow>
               (case findOne r ty i of
                  Some e \<Rightarrow> (Inr e, r)
                | None \<Rightarrow> register ty i (JModel t cm (setMeta m Collection JCollection)) r))
      | _ \<Rightarrow>
          (case rawIdOf r data type of
             Inl e \<Rightarrow> (Inl e, r)
           | Inr ident \<Rightarrow>
               if findOne r type ident \<noteq> None then (Inl (Error MODEL_EXISTS), r)
               else
                 (case classOf r type of
                    None \<Rightarrow> (Inl (Error UNDEFINED_MODEL), r)
                  | Some (t, cm) \<Rightarrow>
                      (case construct E t cm data JCollection r of
                         (Inl e, r') \<Rightarrow> (Inl e, r')
                       | (Inr entity, r') \<Rightarrow>
                           (case getModelId entity of
                              Inl e \<Rightarrow> (Inl e, r')
                            | Inr i \<Rightarrow> register type i entity r')))))"

text \<open>Modelled from the spec: \<^verbatim>\<open>add\<close> itself. The nested calls (an inline object inside
  raw data is added in turn) are counted: \<^verbatim>\<open>add n\<close> allows n levels of them.\<close>

fun add ::
  "nat \<Rightarrow> (nat \<Rightarrow> jsval \<Rightarrow> jsval \<Rightarrow> string \<Rightarrow> registry option \<Rightarrow> jsval)
     \<Rightarrow> (jsval \<Rightarrow> string \<Rightarrow> jsval \<Rightarrow> registry \<Rightarrow> (error + unit) \<times> registry)
     \<Rightarrow> jsval \<Rightarrow> jsval \<Rightarrow> registry \<Rightarrow> (error + jsval) \<times> registry" where
  "add 0 fns ubr data type r = (Inl OutOfFuel, r)"
| "add (Suc n) fns ubr data type r =
     add_step \<lparr>collection_add = add n fns ubr, ref_model_fn = fns, updateBackRef = ubr\<rparr> data type r"

text \<open>The helpers with the collection's \<^verbatim>\<open>add\<close> in place.\<close>

definition the_env ::
  "nat \<Rightarrow> (nat \<Rightarrow> jsval \<Rightarrow> jsval \<Rightarrow> string \<Rightarrow> registry option \<Rightarrow> jsval)
     \<Rightarrow> (jsval \<Rightarrow> string \<Rightarrow> jsval \<Rightarrow> registry \<Rightarrow> (error + unit) \<times> registry) \<Rightarrow> env" where
  "the_env n fns ubr = \<lparr>collection_add = add n fns ubr, ref_model_fn = fns, updateBackRef = ubr\<rparr>"


section \<open>The URL builder of the JSON:API package\<close>

text \<open>
  Strings are ASCII text. \<^verbatim>\<open>String(x)\<close>, as a template literal applies it, and
  \<^verbatim>\<open>Array.prototype.join\<close>, which writes nothing for \<^verbatim>\<open>null\<close> and \<^verbatim>\<open>undefined\<close>.
  What \<^verbatim>\<open>String\<close> makes of a number is the language's own function and is a
  parameter, \<open>n2s\<close>; for an integer below \<^verbatim>\<open>1e21\<close> in absolute value it is
  \<open>string_of_int\<close>, the decimal digits.
\<close>

definition string_of_int :: "int \<Rightarrow> string" where
  "string_of_int i = (if i < 0 then CHR ''-'' # string_of_nat (nat (- i)) else string_of_nat (nat i))"

fun join :: "string \<Rightarrow> string list \<Rightarrow> string" where
  "join sep [] = []"
| "join sep [x] = x"
| "join sep (x # y # ys) = x @ sep @ join sep (y # ys)"

fun js_toString :: "(int \<Rightarrow> string) \<Rightarrow> jsval \<Rightarrow> string"
  and js_joinItems :: "(int \<Rightarrow> string) \<Rightarrow> jsval list \<Rightarrow> string list" where
  "js_toString n2s JUndefined = ''undefined''"
| "js_toString n2s JNull = ''null''"
| "js_toString n2s (JBool b) = (if b then ''true'' else ''false'')"
| "js_toString n2s (JNum i) = n2s i"
| "js_toString n2s (JStr cs) = cs"
| "js_toString n2s (JArr xs) = join '','' (js_joinItems n2s xs)"
| "js_toString n2s v = ''[object Object]''"
| "js_joinItems n2s [] = []"
| "js_joinItems n2s (x # xs) =
     (if x = JNull \<or> x = JUndefined then [] else js_toString n2s x) # js_joinItems n2s xs"

datatype ParamArrayType = MultipleParams | CommaSeparated | ParamArray

text \<open>The configuration object \<^verbatim>\<open>config\<close> of the network utilities; \<^verbatim>\<open>URL_REGEX\<close> of the
  constants (not among the sources) is taken as the test it stands for, and the record
  also carries the \<^verbatim>\<open>String\<close> of numbers.\<close>

record config =
  baseUrl :: string
  paramArrayType :: ParamArrayType
  sortParams :: bool
  encodeQueryString :: bool
  URL_REGEX_test :: "string \<Rightarrow> bool"
  Number_toString :: "int \<Rightarrow> string"

text \<open>A filter is plain data, an object with one entry per key; nothing is produced for a
  model instance or a collection inside one.\<close>

fun parametrize :: "config \<Rightarrow> (string \<times> jsval) list \<Rightarrow> string \<Rightarrow> error + (string \<times> jsval) list" where
  "parametrize c [] scope = Inr []"
| "parametrize c ((key, v) # rest) scope =
     bindE
       (case v of
          JArr xs \<Rightarrow>
            (case paramArrayType c of
               CommaSeparated \<Rightarrow> Inr [(scope @ key, JStr (js_toString (Number_toString c) (JArr xs)))]
             | MultipleParams \<Rightarrow> Inr (map (\<lambda>param. (scope @ key, param)) xs)
             | ParamArray \<Rightarrow> Inr (map (\<lambda>param. (scope @ key @ '']['', param)) xs))
        | JObj kvs \<Rightarrow> parametrize c kvs (key @ ''.'')
        | JNull \<Rightarrow> Inl TypeError
        | JModel t cm m \<Rightarrow> Inr []
        | JCollection \<Rightarrow> Inr []
        | _ \<Rightarrow> Inr [(scope @ key, v)])
       (\<lambda>items. bindE (parametrize c rest scope) (\<lambda>more. Inr (items @ more)))"

definition prepareFilters :: "config \<Rightarrow> jsval \<Rightarrow> error + string list" where
  "prepareFilters c filters =
     bindE (parametrize c (entries_of filters) [])
       (\<lambda>items. Inr (map (\<lambda>(key, v). ''filter['' @ key @ '']='' @ js_toString (Number_toString c) v) items))"

definition prepareSort :: "config \<Rightarrow> jsval \<Rightarrow> string list" where
  "prepareSort c sortBy =
     (if truthy sortBy then [''sort='' @ js_toString (Number_toString c) sortBy] else [])"

definition prepareIncludes :: "config \<Rightarrow> jsval \<Rightarrow> string list" where
  "prepareIncludes c include =
     (if \<not> truthy include then []
      else if sortParams c \<and> isArrayLike include
        then (case include of
                JArr xs \<Rightarrow>
                  [''include='' @ js_toString (Number_toString c)
                     (JArr (sort_key (js_toString (Number_toString c))
                              (filter (\<lambda>x. x \<noteq> JUndefined) xs)
                            @ filter (\<lambda>x. x = JUndefined) xs))]
              | _ \<Rightarrow> [])
      else [''include='' @ js_toString (Number_toString c) include])"

definition prepareFields :: "config \<Rightarrow> jsval \<Rightarrow> string list" where
  "prepareFields c fds =
     map (\<lambda>(key, v). ''fields['' @ key @ '']='' @ js_toString (Number_toString c) v)
       (entries_of fds)"

definition prepareRawParams :: "config \<Rightarrow> jsval \<Rightarrow> error + string list" where
  "prepareRawParams c params =
     (case params of
        JArr xs \<Rightarrow>
          mapE (\<lambda>param. case param of
                  JStr cs \<Rightarrow> Inr cs
                | _ \<Rightarrow> bindE (js_prop param ''key'') (\<lambda>k.
                       bindE (js_prop param ''value'') (\<lambda>v.
                         Inr (js_toString (Number_toString c) k @ ''=''
                              @ js_toString (Number_toString c) v)))) xs
      | _ \<Rightarrow> Inl TypeError)"

definition prefixUrl :: "config \<Rightarrow> string \<Rightarrow> bool \<Rightarrow> string" where
  "prefixUrl c url containsBase =
     (if URL_REGEX_test c url \<or> containsBase then url else baseUrl c @ url)"

definition appendParams :: "string \<Rightarrow> string list \<Rightarrow> string" where
  "appendParams url params =
     (if params \<noteq> []
      then url @ (if CHR ''?'' \<notin> set url then ''?'' else ''&'') @ join ''&'' params
      else url)"

text \<open>Percent-encoding. \<^verbatim>\<open>encodeURIComponent\<close> leaves letters, digits and
  \<^verbatim>\<open>-_.!~*'()\<close>; the serializer of \<^verbatim>\<open>URLSearchParams\<close> leaves letters, digits and
  \<^verbatim>\<open>*-._\<close> and writes a space as \<^verbatim>\<open>+\<close>.\<close>

definition hexDigit :: "nat \<Rightarrow> char" where
  "hexDigit n = (if n < 10 then char_of (48 + n) else char_of (55 + n))"

definition percent :: "char \<Rightarrow> string" where
  "percent ch = [CHR ''%'', hexDigit (of_char ch div 16), hexDigit (of_char ch mod 16)]"

definition isAlnum :: "char \<Rightarrow> bool" where
  "isAlnum ch =
     (let n = (of_char ch :: nat)
      in (48 \<le> n \<and> n \<le> 57) \<or> (65 \<le> n \<and> n \<le> 90) \<or> (97 \<le> n \<and> n \<le> 122))"

definition encodeURIComponent :: "string \<Rightarrow> string" where
  "encodeURIComponent cs =
     concat (map (\<lambda>ch. if isAlnum ch \<or> ch \<in> set ''-_.!~*'()'' then [ch] else percent ch) cs)"

fun replaceFirst :: "string \<Rightarrow> string \<Rightarrow> string \<Rightarrow> string" where
  "replaceFirst pat rep [] = []"
| "replaceFirst pat rep (ch # cs) =
     (if take (length pat) (ch # cs) = pat then rep @ drop (length pat) (ch # cs)
      else ch # replaceFirst pat rep cs)"

definition encodeParam :: "string \<Rightarrow> string" where
  "encodeParam param = replaceFirst ''%3D'' ''='' (encodeURIComponent param)"

definition hexValue :: "char \<Rightarrow> nat option" where
  "hexValue ch =
     (let n = (of_char ch :: nat)
      in if 48 \<le> n \<and> n \<le> 57 then Some (n - 48)
         else if 65 \<le> n \<and> n \<le> 70 then Some (n - 55)
         else if 97 \<le> n \<and> n \<le> 102 then Some (n - 87)
         else None)"

text \<open>The percent-decoding of the URL standard keeps a \<^verbatim>\<open>%\<close> that no two hexadecimal
  digits follow; \<^verbatim>\<open>decodeURIComponent\<close> throws a \<^verbatim>\<open>URIError\<close> there.\<close>

fun percentDecode :: "string \<Rightarrow> string" where
  "percentDecode (p # a # b # cs) =
     (if p = CHR ''%'' then
        (case (hexValue a, hexValue b) of
           (Some x, Some y) \<Rightarrow> char_of (16 * x + y) # percentDecode cs
         | _ \<Rightarrow> p # percentDecode (a # b # cs))
      else p # percentDecode (a # b # cs))"
| "percentDecode cs = cs"

fun decodeURIComponent :: "string \<Rightarrow> error + string" where
  "decodeURIComponent [] = Inr []"
| "decodeURIComponent (p # cs) =
     (if p = CHR ''%'' then
        (case cs of
           a # b # rest \<Rightarrow>
             (case (hexValue a, hexValue b) of
                (Some x, Some y) \<Rightarrow>
                  bindE (decodeURIComponent rest) (\<lambda>ds. Inr (char_of (16 * x + y) # ds))
              | _ \<Rightarrow> Inl (Error ''URIError''))
         | _ \<Rightarrow> Inl (Error ''URIError''))
      else bindE (decodeURIComponent cs) (\<lambda>ds. Inr (p # ds)))"

text \<open>\<^verbatim>\<open>String.prototype.split\<close> on one character, and \<^verbatim>\<open>URLSearchParams\<close>: parsing,
  the stable sort by name, and serialization.\<close>

fun split :: "char \<Rightarrow> string \<Rightarrow> string list" where
  "split sep [] = [[]]"
| "split sep (ch # cs) =
     (if ch = sep then [] # split sep cs
      else (case split sep cs of [] \<Rightarrow> [[ch]] | part # parts \<Rightarrow> (ch # part) # parts))"

definition parsePair :: "string \<Rightarrow> string \<times> string" where
  "parsePair cs =
     (let name = takeWhile (\<lambda>ch. ch \<noteq> CHR ''='') cs;
          v = drop (length name + 1) cs;
          plus = map (\<lambda>ch. if ch = CHR ''+'' then CHR '' '' else ch)
      in (percentDecode (plus name), percentDecode (plus v)))"

definition URLSearchParams :: "string \<Rightarrow> (string \<times> string) list" where
  "URLSearchParams init =
     map parsePair
       (filter (\<lambda>cs. cs \<noteq> [])
          (split CHR ''&'' (if take 1 init = ''?'' then drop 1 init else init)))"

definition formEncode :: "string \<Rightarrow> string" where
  "formEncode cs =
     concat (map (\<lambda>ch. if ch = CHR '' '' then ''+''
                        else if isAlnum ch \<or> ch \<in> set ''*-._'' then [ch]
                        else percent ch) cs)"

definition searchParamsToString :: "(string \<times> string) list \<Rightarrow> string" where
  "searchParamsToString ps = join ''&'' (map (\<lambda>(name, v). formEncode name @ ''='' @ formEncode v) ps)"

definition sortUrlParams :: "config \<Rightarrow> string \<Rightarrow> error + string" where
  "sortUrlParams c url =
     (case split CHR ''?'' url of
        base # searchParams # rest \<Rightarrow>
          (if searchParams = [] then Inr url
           else
             (let urlSearchParams = sort_key fst (URLSearchParams searchParams)
              in bindE (if encodeQueryString c then Inr (searchParamsToString urlSearchParams)
                        else decodeURIComponent (searchParamsToString urlSearchParams))
                   (\<lambda>urlSearchParamsString. Inr (base @ ''?'' @ urlSearchParamsString))))
      | _ \<Rightarrow> Inr url)"

record request =
  url :: string
  data :: jsval
  headers :: jsval

text \<open>The headers and the parameter list that \<^verbatim>\<open>buildUrl\<close> computes first.\<close>

definition requestHeaders :: "jsval \<Rightarrow> error + jsval" where
  "requestHeaders options =
     bindE (opt_prop options ''networkConfig'') (\<lambda>networkConfig.
     bindE (if truthy options \<and> truthy networkConfig then js_prop networkConfig ''headers''
            else Inr JUndefined) (\<lambda>hs. Inr (js_or hs (JObj []))))"

definition requestParams :: "config \<Rightarrow> jsval \<Rightarrow> error + string list" where
  "requestParams c options =
     bindE (opt_prop options ''queryParams'') (\<lambda>queryParams.
     bindE (opt_prop queryParams ''filter'') (\<lambda>filterBy.
     bindE (prepareFilters c (js_or filterBy (JObj []))) (\<lambda>filters.
     bindE (opt_prop queryParams ''sort'') (\<lambda>sortBy.
     bindE (opt_prop queryParams ''include'') (\<lambda>include.
     bindE (opt_prop queryParams ''fields'') (\<lambda>fds.
     bindE (opt_prop queryParams ''custom'') (\<lambda>custom.
     bindE (prepareRawParams c (js_or custom (JArr []))) (\<lambda>raws.
       let params = filters @ prepareSort c sortBy @ prepareIncludes c include
                      @ prepareFields c (js_or fds (JObj [])) @ raws
       in Inr (if encodeQueryString c then map encodeParam params else params)))))))))"

definition buildUrl :: "config \<Rightarrow> string \<Rightarrow> jsval \<Rightarrow> jsval \<Rightarrow> bool \<Rightarrow> error + request" where
  "buildUrl c u d options containsBase =
     bindE (requestHeaders options) (\<lambda>hs.
     bindE (requestParams c options) (\<lambda>params.
       let baseUrl = appendParams (prefixUrl c u containsBase) params
       in bindE (if sortParams c then sortUrlParams c baseUrl else Inr baseUrl)
            (\<lambda>final. Inr \<lparr>url = final, data = d, headers = hs\<rparr>)))"

section \<open>The response cache\<close>

text \<open>
  Modelled from the spec: the Cache Store and the Cache Strategy Resolver (the cache and
  the network utilities of the JSON:API package are not among the sources; only their
  tests are). A response is a server-reported error when its status is outside the
  success range or when it carries a well-formed error payload; the transport may also
  fail without any response.
\<close>

record response =
  status :: nat
  body :: jsval
  errors :: "jsval option"

definition server_error :: "response \<Rightarrow> bool" where
  "server_error r = (\<not> (200 \<le> status r \<and> status r < 300) \<or> errors r \<noteq> None)"

datatype network = Unavailable | Responds response

text \<open>Modelled from the spec: a cache entry holds the fetched response and the time of the
  fetch, under the fingerprint of the request.\<close>

record cache_entry =
  cached :: response
  fetchedAt :: nat

type_synonym cache_store = "(string \<times> cache_entry) list"

datatype CachingStrategy =
    NetworkOnly
  | NetworkFirst
  | StaleWhileRevalidate
  | CacheOnly
  | CacheFirst
  | StaleAndUpdate
  | UnknownStrategy

datatype cache_state = NoEntry | Fresh | Stale

text \<open>Modelled from the spec: the state of a request; a \<^verbatim>\<open>maxAge\<close> of 0 makes every
  entry stale.\<close>

definition cacheState :: "cache_store \<Rightarrow> string \<Rightarrow> nat \<Rightarrow> nat \<Rightarrow> cache_state" where
  "cacheState st key now maxAge =
     (case map_of st key of
        None \<Rightarrow> NoEntry
      | Some e \<Rightarrow> if maxAge = 0 then Stale
                  else if now - fetchedAt e \<le> maxAge then Fresh else Stale)"

datatype answer =
    FromNetwork response
  | FromCache response
  | ServerError response
  | Failed string

record outcome =
  answer :: answer
  networkCalls :: nat
  revalidated :: "response option"
  store :: cache_store

text \<open>Modelled from the spec: a network call. A successful response is written into the
  store under the fingerprint (created, or refreshed in place); a server-reported error is
  handed to the caller and never written; a transport failure writes nothing.\<close>

definition networkCall :: "network \<Rightarrow> string \<Rightarrow> nat \<Rightarrow> cache_store \<Rightarrow> answer \<times> cache_store" where
  "networkCall net key now st =
     (case net of
        Unavailable \<Rightarrow> (Failed ''network not available'', st)
      | Responds r \<Rightarrow>
          if server_error r then (ServerError r, st)
          else (FromNetwork r, AList.update key \<lparr>cached = r, fetchedAt = now\<rparr> st))"

text \<open>Modelled from the spec: the three ways a fetch is answered: by the network, by the
  cache, and by the cache with a revalidation in the background, which updates the
  response and the store when it succeeds.\<close>

definition fromNetwork :: "network \<Rightarrow> string \<Rightarrow> nat \<Rightarrow> cache_store \<Rightarrow> outcome" where
  "fromNetwork net key now st =
     (case networkCall net key now st of
        (a, st') \<Rightarrow> \<lparr>answer = a, networkCalls = 1, revalidated = None, store = st'\<rparr>)"

definition fromCache :: "cache_entry \<Rightarrow> cache_store \<Rightarrow> outcome" where
  "fromCache e st = \<lparr>answer = FromCache (cached e), networkCalls = 0, revalidated = None, store = st\<rparr>"

definition revalidate :: "cache_entry \<Rightarrow> network \<Rightarrow> string \<Rightarrow> nat \<Rightarrow> cache_store \<Rightarrow> outcome" where
  "revalidate e net key now st =
     (case networkCall net key now st of
        (a, st') \<Rightarrow>
          \<lparr>answer = FromCache (cached e), networkCalls = 1,
           revalidated = (case a of FromNetwork r \<Rightarrow> Some r | _ \<Rightarrow> None), store = st'\<rparr>)"

text \<open>Modelled from the spec: the table of the Cache Strategy Resolver, one row per
  strategy, one column per state. \<^verbatim>\<open>net\<close> is what the network answers if it is called.\<close>

definition fetch :: "CachingStrategy \<Rightarrow> nat \<Rightarrow> nat \<Rightarrow> string \<Rightarrow> network \<Rightarrow> cache_store \<Rightarrow> outcome" where
  "fetch strategy maxAge now key net st =
     (case strategy of
        UnknownStrategy \<Rightarrow>
          \<lparr>answer = Failed ''invalid caching strategy'', networkCalls = 0, revalidated = None, store = st\<rparr>
      | NetworkOnly \<Rightarrow> fromNetwork net key now st
      | NetworkFirst \<Rightarrow>
          (case (net, map_of st key) of
             (Unavailable, Some e) \<Rightarrow> (fromCache e st)\<lparr>networkCalls := 1\<rparr>
           | _ \<Rightarrow> fromNetwork net key now st)
      | CacheOnly \<Rightarrow>
          (case map_of st key of
             None \<Rightarrow> \<lparr>answer = Failed ''no cache for this request'', networkCalls = 0,
                       revalidated = None, store = st\<rparr>
           | Some e \<Rightarrow> fromCache e st)
      | CacheFirst \<Rightarrow>
          (case map_of st key of
             None \<Rightarrow> fromNetwork net key now st
           | Some e \<Rightarrow> fromCache e st)
      | StaleWhileRevalidate \<Rightarrow>
          (case map_of st key of
             None \<Rightarrow> fromNetwork net key now st
           | Some e \<Rightarrow>
               if cacheState st key now maxAge = Fresh then fromCache e st
               else revalidate e net key now st)
      | StaleAndUpdate \<Rightarrow>
          (case map_of st key of
             None \<Rightarrow> fromNetwork net key now st
           | Some e \<Rightarrow>
               if cacheState st key now maxAge = Fresh then fromCache e st
               else revalidate e net key now st))"

section \<open>Frame conditions\<close>

text \<open>
  \<^verbatim>\<open>frame K w w'\<close>: from the state \<open>w\<close> to the state \<open>w'\<close> the meta entries of the model
  named in \<open>K\<close> are untouched, and the log has only grown, by events other than
  \<^verbatim>\<open>startAction\<close> and \<^verbatim>\<open>endAction\<close>. A computation keeps \<open>K\<close> when every run of it,
  finished or thrown, is such a step.
\<close>

definition frame :: "string set \<Rightarrow> world \<Rightarrow> world \<Rightarrow> bool" where
  "frame K w w' =
     ((\<forall>k \<in> K. map_of (self w') k = map_of (self w) k)
      \<and> (\<exists>evs. log w' = log w @ evs \<and> StartAction \<notin> set evs \<and> EndAction \<notin> set evs))"

definition keeps :: "string set \<Rightarrow> 'a M \<Rightarrow> bool" where
  "keeps K m = (\<forall>w. frame K w (snd (m w)))"

definition protected :: "string set \<Rightarrow> bool" where
  "protected K = (Fields \<notin> K \<and> (\<forall>key. ''data__'' @ key \<notin> K \<and> ''ref_'' @ key \<notin> K))"

section \<open>A collection with one model\<close>

text \<open>
  The inputs at which the properties below are evaluated. The class \<open>Foo\<close> has the static
  type \<open>foo\<close> and declares two attributes, \<open>id\<close> with \<^verbatim>\<open>isIdentifier\<close> and \<open>kind\<close> with
  \<^verbatim>\<open>isType\<close>, so that both of its field names are declared ones. The collection knows
  this class only, computes no reference targets and has no back-references.
\<close>

definition plainField :: jsval where
  "plainField = JObj [(''referenceDef'', JBool False), (''defaultValue'', JUndefined)]"

definition fooMeta :: classmeta where
  "fooMeta = ((''id'', ''kind''), [(''fields'', JObj [(''id'', plainField), (''kind'', plainField)])])"

definition noRefModelFn :: "nat \<Rightarrow> jsval \<Rightarrow> jsval \<Rightarrow> string \<Rightarrow> registry option \<Rightarrow> jsval" where
  "noRefModelFn n d p k c = JUndefined"

definition noBackRef :: "jsval \<Rightarrow> string \<Rightarrow> jsval \<Rightarrow> registry \<Rightarrow> (error + unit) \<times> registry" where
  "noBackRef m k v r = (Inr (), r)"

definition fooEnv :: env where
  "fooEnv = the_env 1 noRefModelFn noBackRef"

definition emptyFoo :: registry where
  "emptyFoo = \<lparr>entries = [], types = [JClass (JStr ''foo'') fooMeta], autoIdValue = 0\<rparr>"

text \<open>The field table of the model that \<^verbatim>\<open>add({id: 5, name: 'x'}, 'foo')\<close> makes in this
  collection; the model and the collection with it follow.\<close>

definition fooFields :: jsval where
  "fooFields =
     JObj [(''id'', plainField), (''kind'', plainField),
           (''name'', JObj [(''referenceDef'', JBool False)])]"

text \<open>The meta store of an instance of \<open>Foo\<close> that was made from the two raw values
  \<open>id\<close> and \<open>name\<close>.\<close>

definition fooStore :: "jsval \<Rightarrow> jsval \<Rightarrow> jsval \<Rightarrow> jsval \<Rightarrow> (string \<times> jsval) list" where
  "fooStore collection ident original name =
     [(''collection'', collection), (''type'', JStr ''foo''), (''id'', ident),
      (''originalId'', original), (''fields'', fooFields), (''data__name'', name)]"

definition foo5 :: "(string \<times> jsval) list" where
  "foo5 = fooStore JCollection (JNum 5) JUndefined (JStr ''x'')"

definition oneFoo :: registry where
  "oneFoo = \<lparr>entries = [((JStr ''foo'', JNum 5), JModel (JStr ''foo'') fooMeta foo5)],
             types = [JClass (JStr ''foo'') fooMeta], autoIdValue = 0\<rparr>"

text \<open>The same model outside any collection, as \<^verbatim>\<open>new Foo({id: 5, name: 'x'})\<close> makes it.\<close>

definition detachedFoo5 :: "(string \<times> jsval) list" where
  "detachedFoo5 = fooStore JUndefined (JNum 5) JUndefined (JStr ''x'')"

text \<open>What \<^verbatim>\<open>cloneModel\<close> hands to \<^verbatim>\<open>collection.add\<close> for the model \<open>foo5\<close>: its
  serialisation, with the identifier of the meta object moved to the original identifier.\<close>

definition clonedFoo5 :: jsval where
  "clonedFoo5 =
     JObj [(''__META__'',
            JObj [(''type'', JStr ''foo''), (''fields'', fooFields),
                  (''collection'', JUndefined), (''originalId'', JNum 5)]),
           (''id'', JNum 5), (''kind'', JStr ''foo''), (''name'', JStr ''x'')]"

text \<open>A class that also declares the to-many reference \<open>friends\<close>, and the instance that
  its constructor makes of \<^verbatim>\<open>{id: 5}\<close> without a collection: its bucket holds the empty
  list.\<close>

definition friendlyMeta :: classmeta where
  "friendlyMeta =
     ((''id'', ''kind''),
      [(''fields'',
        JObj [(''id'', plainField), (''kind'', plainField),
              (''friends'',
               JObj [(''referenceDef'',
                      JObj [(''type'', TO_MANY), (''model'', JStr ''foo''),
                            (''property'', JUndefined)]),
                     (''defaultValue'', JUndefined)])])])"

definition detachedFriendly :: "(string \<times> jsval) list" where
  "detachedFriendly =
     [(''collection'', JUndefined), (''type'', JStr ''foo''), (''id'', JNum 5),
      (''originalId'', JUndefined), (''fields'', obj_get (classStore friendlyMeta) ''fields''),
      (''ref_friends'', JArr [])]"

text \<open>
  The class \<open>Bar\<close> has the static type \<open>bar\<close> and declares the identifier attribute \<open>id\<close>
  and nothing else, so the name of its type field is the constant of \<^verbatim>\<open>consts.ts\<close>, here
  \<open>tf\<close>. \<^verbatim>\<open>barStore []\<close> is the meta store of the model that
  \<^verbatim>\<open>add({id: 5}, 'bar')\<close> makes, and \<^verbatim>\<open>barStore extra\<close> the same with more fields in its
  field table.
\<close>

definition barMeta :: "string \<Rightarrow> classmeta" where
  "barMeta tf = ((''id'', tf), [(''fields'', JObj [(''id'', plainField)])])"

definition barStore :: "(string \<times> jsval) list \<Rightarrow> (string \<times> jsval) list" where
  "barStore extra =
     [(''collection'', JCollection), (''type'', JStr ''bar''), (''id'', JNum 5),
      (''originalId'', JUndefined), (''fields'', JObj ((''id'', plainField) # extra))]"

text \<open>A model of a class with the same attributes whose type is the number 7, in a
  collection.\<close>

definition seven1 :: jsval where
  "seven1 =
     JModel (JNum 7) fooMeta
       [(''collection'', JCollection), (''type'', JNum 7), (''id'', JNum 1),
        (''originalId'', JUndefined),
        (''fields'', JObj [(''id'', plainField), (''kind'', plainField)])]"





text \<open>A configuration that sorts the query parameters and does not encode them.\<close>

definition sortingConfig :: config where
  "sortingConfig =
     \<lparr>baseUrl = ''https://example.com/'', paramArrayType = CommaSeparated, sortParams = True,
      encodeQueryString = False, URL_REGEX_test = (\<lambda>u. False),
      Number_toString = string_of_int\<rparr>"


text \<open>The options of a request that carry query parameters only: a filter, a sort, the
  includes, the sparse fields and the custom parameters.\<close>

definition queryOptions ::
  "(string \<times> jsval) list \<Rightarrow> jsval \<Rightarrow> jsval \<Rightarrow> (string \<times> jsval) list \<Rightarrow> jsval \<Rightarrow> jsval" where
  "queryOptions filterBy sortBy include fds custom =
     JObj [(''queryParams'',
            JObj [(''filter'', JObj filterBy), (''sort'', sortBy), (''include'', include),
                  (''fields'', JObj fds), (''custom'', custom)])]"

section \<open>Plain fields\<close>

text \<open>
  A field definition is plain when it is an object whose \<^verbatim>\<open>referenceDef\<close> is falsy, as
  \<^verbatim>\<open>Attribute\<close> writes it for an attribute that is no reference and \<^verbatim>\<open>initModel\<close> for a
  raw value that is none. \<^verbatim>\<open>plainInit\<close> is what the loop of \<^verbatim>\<open>initModel\<close> does for a
  plain field of raw data that is a plain object: nothing for the type field and the
  identifier field, whose accessors compute, and otherwise the raw value, or the default of
  the definition, written under \<^verbatim>\<open>data__key\<close> after one single update.
\<close>

definition plainDef :: "jsval \<Rightarrow> bool" where
  "plainDef d = (case d of JObj kv \<Rightarrow> \<not> truthy (obj_get kv ''referenceDef'') | _ \<Rightarrow> False)"

definition plainFields :: "(string \<times> jsval) list \<Rightarrow> bool" where
  "plainFields fds = list_all (\<lambda>kd. plainDef (snd kd)) fds"

definition fieldValue :: "(string \<times> jsval) list \<Rightarrow> (string \<times> jsval) list \<Rightarrow> string \<Rightarrow> jsval" where
  "fieldValue kvs fds key =
     (if key \<in> set (obj_keys kvs) then obj_get kvs key
      else obj_get (entries_of (obj_get fds key)) ''defaultValue'')"

definition plainInit ::
  "classmeta \<Rightarrow> (string \<times> jsval) list \<Rightarrow> (string \<times> jsval) list \<Rightarrow> string \<Rightarrow> world \<Rightarrow> world" where
  "plainInit cm kvs fds key w =
     (if key = typeFieldOf cm \<or> key = idFieldOf cm then w
      else w\<lparr>self := setMeta (setMeta (self w) (''data__'' @ key) JUndefined) (''data__'' @ key)
                        (fieldValue kvs fds key),
             log := log w @ [UpdateSingleAction key (fieldValue kvs fds key)]\<rparr>)"

text \<open>
  \<^verbatim>\<open>initialFields\<close> is the field table from which \<^verbatim>\<open>initModel\<close> starts,
  \<^verbatim>\<open>Object.assign({}, modelClassFields, modelMeta?.fields)\<close>, and \<^verbatim>\<open>rawIdent\<close> the
  identifier that it picks, \<^verbatim>\<open>peekNonNullish(rawData[idField], modelMeta?.id, ...)\<close> with
  the next generated one as the last resort. Raw data is plain for a class when its meta
  entry is absent or an object, the fields it starts from are plain, and none of its new
  keys holds a model, a reference or a list of them.
\<close>

definition initialFields :: "classmeta \<Rightarrow> (string \<times> jsval) list \<Rightarrow> (string \<times> jsval) list" where
  "initialFields cm kvs =
     obj_assign (entries_of (getMeta (classStore cm) ClassFields (JObj [])))
       (entries_of (obj_get (entries_of (obj_get kvs META_FIELD)) ''fields''))"

definition rawIdent :: "classmeta \<Rightarrow> (string \<times> jsval) list \<Rightarrow> registry \<Rightarrow> jsval" where
  "rawIdent cm kvs r =
     (let picked = peekNonNullish [obj_get kvs (idFieldOf cm),
                     obj_get (entries_of (obj_get kvs META_FIELD)) ''id'']
      in if picked = JNull then JNum (autoIdValue r - 1) else picked)"

definition plainData :: "classmeta \<Rightarrow> (string \<times> jsval) list \<Rightarrow> bool" where
  "plainData cm kvs =
     ((case obj_get kvs META_FIELD of JUndefined \<Rightarrow> True | JObj meta \<Rightarrow> True | _ \<Rightarrow> False)
      \<and> plainFields (initialFields cm kvs)
      \<and> list_all (\<lambda>key. key = META_FIELD \<or> js_in key (initialFields cm kvs)
                          \<or> \<not> isRef (obj_get kvs key)) (obj_keys kvs))"

section \<open>Properties\<close>

subsection \<open>Placeholders and references\<close>

lemma two_keys:
  fixes a b :: string
  assumes ab: "a \<noteq> b" and d: "distinct ks"
  shows "(a \<in> set ks \<and> b \<in> set ks \<and> length ks = 2) = (set ks = {a, b})"
proof
  assume h: "a \<in> set ks \<and> b \<in> set ks \<and> length ks = 2"
  then have "card (set ks) = 2" using d by (simp add: distinct_card)
  moreover have "{a,b} \<subseteq> set ks" using h by simp
  moreover have "card {a,b} = 2" using ab by simp
  ultimately show "set ks = {a,b}"
    by (metis List.finite_set card_subset_eq)
next
  assume "set ks = {a,b}"
  then have "card (set ks) = 2" using ab by simp
  then show "a \<in> set ks \<and> b \<in> set ks \<and> length ks = 2"
    using distinct_card[OF d] \<open>set ks = {a,b}\<close> by simp
qed

lemma distinct_obj_keys: "distinct (obj_keys kvs)"
  by (simp add: obj_keys_def)

text \<open>
  C9. For every value \<open>v\<close>, \<^verbatim>\<open>isModelReference(v)\<close> is true if and only if \<open>v\<close> is a non-null
  object whose key set is exactly \<open>{type, id}\<close>, or \<open>v\<close> is array-like and every element
  satisfies \<^verbatim>\<open>isModelReference\<close>; in particular it is true of the empty array.
\<close>

theorem isModelReference_iff:
  "(isModelReference v \<longleftrightarrow>
      (typeof_object v \<and> v \<noteq> JNull \<and> \<not> isArrayLike v \<and> set (Object_keys v) = {''type'', ''id''})
      \<or> (\<exists>xs. v = JArr xs \<and> list_all isModelReference xs))
   \<and> isModelReference (JArr [])"
proof (cases v)
  case (JObj kvs)
  then show ?thesis
    using two_keys[of "''type''" "''id''" "obj_keys kvs"]
    by (simp add: has_key_def distinct_obj_keys)
next
  case (JModel t cm m)
  then show ?thesis
    using two_keys[of "''type''" "''id''" "obj_keys (fields_of m)"]
    by (simp add: has_key_def distinct_obj_keys del: fields_of.simps)
qed (simp_all add: has_key_def)

theorem isModelReference_iff_witness:
  "isModelReference (JObj [(''type'', JStr ''foo''), (''id'', JNum 1)])
   \<and> \<not> isModelReference (JObj [(''type'', JStr ''foo''), (''id'', JNum 1), (''name'', JNull)])
   \<and> isModelReference (JArr [JObj [(''id'', JNum 1), (''type'', JStr ''foo'')]])
   \<and> isModelReference (JArr [])"
  using isModelReference_iff [of "JObj [(''type'', JStr ''foo''), (''id'', JNum 1)]"]
    isModelReference_iff [of "JObj [(''type'', JStr ''foo''), (''id'', JNum 1), (''name'', JNull)]"]
    isModelReference_iff [of "JArr [JObj [(''id'', JNum 1), (''type'', JStr ''foo'')]]"]
  by (simp add: obj_keys_def has_key_def)

lemma getModelRef_idem: "getModelRef v = Inr r \<Longrightarrow> getModelRef r = Inr r"
  by (cases v) (auto simp: getModelRef_def bindE_def split: sum.splits if_splits)

text \<open>
  C10. \<^verbatim>\<open>getModelRef\<close> is idempotent: applying it to its own result changes nothing (and
  an input on which it throws keeps throwing). On a value that is not a \<^verbatim>\<open>PureModel\<close>
  instance it is the identity; on an instance it returns exactly
  \<^verbatim>\<open>{id: getModelId(m), type: getModelType(m)}\<close>.
\<close>

theorem getModelRef_idempotent:
  "bindE (getModelRef m) getModelRef = getModelRef m
   \<and> (\<not> instanceofPureModel m \<longrightarrow> getModelRef m = Inr m)
   \<and> (instanceofPureModel m \<longrightarrow> getModelId m = Inr i \<longrightarrow> getModelType m = Inr ty \<longrightarrow>
        getModelRef m = Inr (JObj [(''id'', i), (''type'', ty)]))"
proof -
  have "bindE (getModelRef m) getModelRef = getModelRef m"
    by (cases "getModelRef m") (auto simp: bindE_def dest: getModelRef_idem)
  then show ?thesis by (simp add: getModelRef_def bindE_def)
qed

theorem getModelRef_idempotent_witness:
  "getModelRef (JModel (JStr ''foo'') fooMeta [(''id'', JNum 1), (''type'', JStr ''bar'')])
     = Inr (JObj [(''id'', JNum 1), (''type'', JStr ''bar'')])
   \<and> getModelRef (JObj [(''id'', JNum 1), (''type'', JStr ''bar'')])
     = Inr (JObj [(''id'', JNum 1), (''type'', JStr ''bar'')])"
  using getModelRef_idempotent [of "JModel (JStr ''foo'') fooMeta [(''id'', JNum 1), (''type'', JStr ''bar'')]"
      "JNum 1" "JStr ''bar''"]
    getModelRef_idempotent [of "JObj [(''id'', JNum 1), (''type'', JStr ''bar'')]" "JNum 1" "JStr ''bar''"]
  by (simp add: getMeta_def IdField_def TypeField_def Fields_def has_key_def obj_keys_def js_or_def)

subsection \<open>Construction from plain data\<close>

text \<open>
  For raw data that is plain for its class, \<^verbatim>\<open>initModel\<close> never throws, and what it leaves
  in the meta store of the new instance can be written out: the loop over the field table
  is a fold of \<^verbatim>\<open>plainInit\<close>.
\<close>

lemma set_alist_update: "set (AList.update k v al) \<subseteq> insert (k, v) (set al)"
  by (induction al) auto

lemma plainFields_get:
  assumes "plainFields fds" and "key \<in> set (obj_keys fds)"
  shows "\<exists>d. obj_get fds key = JObj d \<and> \<not> truthy (obj_get d ''referenceDef'')"
proof -
  from assms(2) have "key \<in> fst ` set fds" by (simp add: obj_keys_def)
  then obtain v where v: "map_of fds key = Some v"
    by (metis domD dom_map_of_conv_image_fst)
  then have "(key, v) \<in> set fds" by (rule map_of_SomeD)
  then have "plainDef v" using assms(1) by (auto simp: plainFields_def list_all_iff)
  then show ?thesis using v by (auto simp: plainDef_def obj_get_def split: jsval.splits)
qed

lemma fields_of_setMeta:
  "key \<noteq> Fields \<Longrightarrow> fields_of (setMeta m key v) = fields_of m"
  by (simp add: setMeta_def getMeta_def update_conv')

lemma initField_plain:
  assumes p: "plainFields fds" and k: "key \<in> set (obj_keys fds)" and f: "fields_of (self w) = fds"
  shows "bindM (liftE (modelMapParse (JObj kvs) (obj_get fds key) key))
           (\<lambda>v. initModelField E t cm key v) w = (Inr (), plainInit cm kvs fds key w)"
proof -
  obtain d where d: "obj_get fds key = JObj d" "\<not> truthy (obj_get d ''referenceDef'')"
    using plainFields_get[OF p k] by blast
  have m: "modelMapParse (JObj kvs) (obj_get fds key) key = Inr (fieldValue kvs fds key)"
    using d by (simp add: modelMapParse_def bindE_def getProp_def fieldValue_def entries_of_def)
  show ?thesis
    using d f unfolding m
    by (simp add: bindM_def liftE_def initModelField_def Let_def returnM_def plainInit_def
        setMetaM_def setPlain_def emit_def del: fields_of.simps)
qed

lemma plainInit_fields: "fields_of (self (plainInit cm kvs fds key w)) = fields_of (self w)"
  by (simp add: plainInit_def fields_of_setMeta Fields_def del: fields_of.simps)

lemma plainInit_reg: "reg (plainInit cm kvs fds key w) = reg w"
  by (simp add: plainInit_def)

lemma initFields_plain:
  assumes p: "plainFields fds"
  shows "set ks \<subseteq> set (obj_keys fds) \<Longrightarrow> fields_of (self w) = fds \<Longrightarrow>
     forEachM ks (\<lambda>fieldName.
        bindM (liftE (modelMapParse (JObj kvs) (obj_get fds fieldName) fieldName))
          (\<lambda>v. initModelField E t cm fieldName v)) w
     = (Inr (), fold (plainInit cm kvs fds) ks w)"
proof (induction ks arbitrary: w)
  case Nil
  then show ?case by (simp add: returnM_def)
next
  case (Cons k ks)
  have s: "bindM (liftE (modelMapParse (JObj kvs) (obj_get fds k) k))
           (\<lambda>v. initModelField E t cm k v) w = (Inr (), plainInit cm kvs fds k w)"
    using initField_plain[OF p _ Cons.prems(2)] Cons.prems(1) by simp
  have "fields_of (self (plainInit cm kvs fds k w)) = fds"
    using Cons.prems(2) plainInit_fields by simp
  then show ?case using Cons.IH[of "plainInit cm kvs fds k w"] Cons.prems(1) s
    by (simp add: bindM_def del: fields_of.simps)
qed

lemma fold_plainInit_reg: "reg (fold (plainInit cm kvs fds) ks w) = reg w"
  by (induction ks arbitrary: w) (simp_all add: plainInit_reg)

lemma fold_plainInit_fields: "fields_of (self (fold (plainInit cm kvs fds) ks w)) = fields_of (self w)"
  by (induction ks arbitrary: w) (simp_all add: plainInit_fields del: fields_of.simps)

lemma map_of_setMeta: "map_of (setMeta m k v) k' = (if k' = k then Some v else map_of m k')"
  by (simp add: setMeta_def update_conv')

lemma fold_plainInit_other:
  "(\<And>k. k \<in> set ks \<Longrightarrow> key \<noteq> ''data__'' @ k) \<Longrightarrow>
   map_of (self (fold (plainInit cm kvs fds) ks w)) key = map_of (self w) key"
proof (induction ks arbitrary: w)
  case Nil
  then show ?case by simp
next
  case (Cons k ks)
  have "map_of (self (plainInit cm kvs fds k w)) key = map_of (self w) key"
    using Cons.prems[of k] by (simp add: plainInit_def map_of_setMeta)
  then show ?case using Cons by simp
qed

lemma fold_plainInit_data:
  assumes "key \<in> set ks" and "key \<noteq> typeFieldOf cm" and "key \<noteq> idFieldOf cm"
  shows "map_of (self (fold (plainInit cm kvs fds) ks w)) (''data__'' @ key)
         = Some (fieldValue kvs fds key)"
  using assms(1)
proof (induction ks arbitrary: w)
  case Nil
  then show ?case by simp
next
  case (Cons k ks)
  show ?case
  proof (cases "key \<in> set ks")
    case True
    then show ?thesis using Cons.IH by simp
  next
    case False
    then have kk: "k = key" using Cons.prems by simp
    have "map_of (self (fold (plainInit cm kvs fds) ks (plainInit cm kvs fds k w))) (''data__'' @ key)
          = map_of (self (plainInit cm kvs fds k w)) (''data__'' @ key)"
      using False by (intro fold_plainInit_other) auto
    moreover have "map_of (self (plainInit cm kvs fds key w)) (''data__'' @ key)
          = Some (fieldValue kvs fds key)"
      using assms(2,3) by (simp add: plainInit_def map_of_setMeta)
    ultimately show ?thesis using kk by simp
  qed
qed

lemma plainInit_log:
  "\<exists>evs. log (plainInit cm kvs fds k w) = log w @ evs
         \<and> StartAction \<notin> set evs \<and> EndAction \<notin> set evs"
  by (simp add: plainInit_def)

lemma fold_plainInit_log:
  "\<exists>evs. log (fold (plainInit cm kvs fds) ks w) = log w @ evs
         \<and> StartAction \<notin> set evs \<and> EndAction \<notin> set evs"
proof (induction ks arbitrary: w)
  case Nil
  then show ?case by simp
next
  case (Cons k ks)
  obtain evs where e: "log (fold (plainInit cm kvs fds) ks (plainInit cm kvs fds k w))
      = log (plainInit cm kvs fds k w) @ evs" "StartAction \<notin> set evs" "EndAction \<notin> set evs"
    using Cons.IH by blast
  obtain ev1 where e1: "log (plainInit cm kvs fds k w) = log w @ ev1"
      "StartAction \<notin> set ev1" "EndAction \<notin> set ev1"
    using plainInit_log by blast
  have "log (fold (plainInit cm kvs fds) (k # ks) w) = log w @ (ev1 @ evs)"
    using e(1) e1(1) by simp
  moreover have "StartAction \<notin> set (ev1 @ evs)" "EndAction \<notin> set (ev1 @ evs)"
    using e e1 by simp_all
  ultimately show ?case by blast
qed


lemma plainFields_update:
  "plainFields fds \<Longrightarrow> plainDef d \<Longrightarrow> plainFields (AList.update k d fds)"
  using set_alist_update[of k d fds] by (auto simp: plainFields_def list_all_iff)

lemma obj_keys_update: "set (obj_keys (AList.update k d fds)) = insert k (set (obj_keys fds))"
  by (auto simp: obj_keys_def dom_update[symmetric] simp flip: dom_map_of_conv_image_fst
      simp: update_conv')

lemma addNewFields_plain:
  assumes "plainFields fds0"
    and "\<forall>k \<in> set ks. \<not> isRef (obj_get kvs k)"
  shows "\<exists>fds. addNewFields (JObj kvs) skipMapped ks fds0 = Inr fds \<and> plainFields fds
           \<and> set (obj_keys fds) = set (obj_keys fds0) \<union> {k \<in> set ks. JStr k \<notin> set skipMapped}"
  using assms
proof (induction ks arbitrary: fds0)
  case Nil
  then show ?case by simp
next
  case (Cons k ks)
  let ?d = "JObj [(''referenceDef'', JBool False)]"
  let ?f1 = "if JStr k \<in> set skipMapped then fds0 else AList.update k ?d fds0"
  have pd: "plainDef ?d" by (simp add: plainDef_def obj_get_def)
  have p1: "plainFields ?f1" using Cons.prems(1) pd by (simp add: plainFields_update)
  have nd: "newFieldDef (obj_get kvs k) = Inr ?d" using Cons.prems(2) by (simp add: newFieldDef_def)
  obtain fds where f: "addNewFields (JObj kvs) skipMapped ks ?f1 = Inr fds" "plainFields fds"
      "set (obj_keys fds) = set (obj_keys ?f1) \<union> {k \<in> set ks. JStr k \<notin> set skipMapped}"
    using Cons.IH[OF p1] Cons.prems(2) by auto
  have "addNewFields (JObj kvs) skipMapped (k # ks) fds0 = Inr fds"
    using f(1) nd by (simp add: bindE_def getProp_def)
  moreover have "set (obj_keys fds)
      = set (obj_keys fds0) \<union> {k' \<in> set (k # ks). JStr k' \<notin> set skipMapped}"
    using f(3) by (auto simp: obj_keys_update)
  ultimately show ?case using f(2) by blast
qed

lemma opt_prop_meta:
  "mm = JUndefined \<or> (\<exists>meta. mm = JObj meta) \<Longrightarrow> opt_prop mm key = Inr (obj_get (entries_of mm) key)"
  by (auto simp: opt_prop_def getProp_def entries_of_def obj_get_def)

lemma bindM_setMetaM: "bindM (setMetaM k v) f w = f () (w\<lparr>self := setMeta (self w) k v\<rparr>)"
  by (simp add: bindM_def setMetaM_def)

lemma bindM_liftE_Inr_w: "bindM (liftE (Inr x)) f w = f x w"
  by (simp add: bindM_def liftE_def)

lemma fields_of_set_Fields: "fields_of (setMeta m Fields (JObj fds)) = fds"
  by (simp add: setMeta_def getMeta_def update_conv')

lemma initModel_plain_eq:
  assumes mm: "obj_get kvs META_FIELD = JUndefined \<or> (\<exists>meta. obj_get kvs META_FIELD = JObj meta)"
    and an: "addNewFields (JObj kvs)
               (map (\<lambda>fieldName. getMeta (classStore cm) (ClassMapField @ ''_'' @ fieldName) (JStr []))
                  (obj_keys (obj_assign (entries_of (getMeta (classStore cm) ClassFields (JObj [])))
                     (entries_of (obj_get (entries_of (obj_get kvs META_FIELD)) ''fields'')))))
               (filter (\<lambda>field. \<not> js_in field
                    (obj_assign (entries_of (getMeta (classStore cm) ClassFields (JObj [])))
                     (entries_of (obj_get (entries_of (obj_get kvs META_FIELD)) ''fields''))))
                  (filter (\<lambda>field. field \<noteq> META_FIELD) (obj_keys kvs)))
               (obj_assign (entries_of (getMeta (classStore cm) ClassFields (JObj [])))
                     (entries_of (obj_get (entries_of (obj_get kvs META_FIELD)) ''fields'')))
             = Inr fds"
    and pf: "plainFields fds"
  shows "initModel E t cm (JObj kvs) coll w =
     (Inr (),
      (let w1 = fold (plainInit cm kvs fds) (obj_keys fds)
        (w\<lparr>reg := (if peekNonNullish [obj_get kvs (idFieldOf cm),
                                    obj_get (entries_of (obj_get kvs META_FIELD)) ''id''] = JNull
                    then (reg w)\<lparr>autoIdValue := autoIdValue (reg w) - 1\<rparr> else reg w),
            self := setMeta (setMeta (setMeta (setMeta (setMeta (self w) Collection coll)
                      TypeField (peekNonNullish [obj_get kvs (typeFieldOf cm),
                                   obj_get (entries_of (obj_get kvs META_FIELD)) ''type'', t]))
                      IdField (if peekNonNullish [obj_get kvs (idFieldOf cm),
                                    obj_get (entries_of (obj_get kvs META_FIELD)) ''id''] = JNull
                               then JNum (autoIdValue (reg w) - 1)
                               else peekNonNullish [obj_get kvs (idFieldOf cm),
                                    obj_get (entries_of (obj_get kvs META_FIELD)) ''id'']))
                      OriginalId (obj_get (entries_of (obj_get kvs META_FIELD)) ''originalId''))
                      Fields (JObj fds)\<rparr>)
       in w1\<lparr>log := log w1 @ [CommitModel]\<rparr>))"
proof -
  let ?mm = "obj_get kvs META_FIELD"
  let ?pk = "peekNonNullish [obj_get kvs (idFieldOf cm), obj_get (entries_of ?mm) ''id'']"
  have op: "opt_prop (JObj kvs) META_FIELD = Inr ?mm"
    by (simp add: opt_prop_def getProp_def)
  have om: "\<And>key. opt_prop ?mm key = Inr (obj_get (entries_of ?mm) key)"
    using opt_prop_meta[OF mm] .
  have gp: "\<And>key. getProp (JObj kvs) key = Inr (obj_get kvs key)"
    by (simp add: getProp_def)
  have idstep: "\<And>f w0. bindM (if ?pk = JNull then onRegistry getAutoId else returnM ?pk) f w0
      = f (if ?pk = JNull then JNum (autoIdValue (reg w0) - 1) else ?pk)
          (w0\<lparr>reg := (if ?pk = JNull then (reg w0)\<lparr>autoIdValue := autoIdValue (reg w0) - 1\<rparr>
                        else reg w0)\<rparr>)"
    by (simp add: bindM_def onRegistry_def getAutoId_def returnM_def)
  have loop: "\<And>w0. fields_of (self w0) = fds \<Longrightarrow>
     forEachM (obj_keys fds) (\<lambda>fieldName.
        bindM (liftE (modelMapParse (JObj kvs) (obj_get fds fieldName) fieldName))
          (\<lambda>v. initModelField E t cm fieldName v)) w0
     = (Inr (), fold (plainInit cm kvs fds) (obj_keys fds) w0)"
    using initFields_plain[OF pf, of "obj_keys fds"] by simp
  show ?thesis
    unfolding initModel_def Let_def
    apply (simp only: op om gp bindM_liftE_Inr_w bindM_setMetaM Object_keys.simps an idstep)
    apply (subst bindM_def)
    apply (subst loop)
     apply (simp add: fields_of_set_Fields del: fields_of.simps)
    apply (simp add: emit_def Let_def del: peekNonNullish.simps)
    done
qed




lemma plainData_meta:
  "plainData cm kvs \<Longrightarrow>
   obj_get kvs META_FIELD = JUndefined \<or> (\<exists>meta. obj_get kvs META_FIELD = JObj meta)"
  by (auto simp: plainData_def split: jsval.splits)


lemma construct_plain:
  assumes pd: "plainData cm kvs"
  shows "\<exists>m. construct E t cm (JObj kvs) coll r
           = (Inr (JModel t cm m),
              if rawIdent cm kvs r = JNum (autoIdValue r - 1)
                 \<and> peekNonNullish [obj_get kvs (idFieldOf cm),
                      obj_get (entries_of (obj_get kvs META_FIELD)) ''id''] = JNull
              then r\<lparr>autoIdValue := autoIdValue r - 1\<rparr> else r)
         \<and> map_of m Collection = Some coll
         \<and> map_of m TypeField = Some (peekNonNullish [obj_get kvs (typeFieldOf cm),
                                   obj_get (entries_of (obj_get kvs META_FIELD)) ''type'', t])
         \<and> map_of m IdField = Some (rawIdent cm kvs r)
         \<and> map_of m OriginalId = Some (obj_get (entries_of (obj_get kvs META_FIELD)) ''originalId'')
         \<and> plainFields (fields_of m)
         \<and> set (obj_keys (initialFields cm kvs)) \<subseteq> set (obj_keys (fields_of m))
         \<and> set (obj_keys (fields_of m)) \<subseteq> set (obj_keys (initialFields cm kvs)) \<union> set (obj_keys kvs)
         \<and> (\<forall>key \<in> set (obj_keys (fields_of m)). key \<noteq> typeFieldOf cm \<longrightarrow> key \<noteq> idFieldOf cm \<longrightarrow>
               map_of m (''data__'' @ key) = Some (fieldValue kvs (fields_of m) key))"
proof -
  let ?f0 = "initialFields cm kvs"
  let ?new = "filter (\<lambda>field. \<not> js_in field ?f0) (filter (\<lambda>field. field \<noteq> META_FIELD) (obj_keys kvs))"
  let ?skip = "map (\<lambda>fieldName. getMeta (classStore cm) (ClassMapField @ ''_'' @ fieldName) (JStr []))
                  (obj_keys ?f0)"
  have mm: "obj_get kvs META_FIELD = JUndefined \<or> (\<exists>meta. obj_get kvs META_FIELD = JObj meta)"
    using plainData_meta[OF pd] .
  have p0: "plainFields ?f0" using pd by (simp add: plainData_def)
  have nr: "\<forall>k \<in> set ?new. \<not> isRef (obj_get kvs k)"
    using pd by (auto simp: plainData_def list_all_iff)
  obtain fds where f: "addNewFields (JObj kvs) ?skip ?new ?f0 = Inr fds" "plainFields fds"
      "set (obj_keys fds) = set (obj_keys ?f0) \<union> {k \<in> set ?new. JStr k \<notin> set ?skip}"
    using addNewFields_plain[OF p0 nr] by blast
  let ?w = "\<lparr>self = [], reg = r, log = []\<rparr>"
  let ?pk = "peekNonNullish [obj_get kvs (idFieldOf cm), obj_get (entries_of (obj_get kvs META_FIELD)) ''id'']"
  let ?S = "setMeta (setMeta (setMeta (setMeta (setMeta [] Collection coll)
                      TypeField (peekNonNullish [obj_get kvs (typeFieldOf cm),
                                   obj_get (entries_of (obj_get kvs META_FIELD)) ''type'', t]))
                      IdField (rawIdent cm kvs r))
                      OriginalId (obj_get (entries_of (obj_get kvs META_FIELD)) ''originalId''))
                      Fields (JObj fds)"
  let ?R = "if ?pk = JNull then r\<lparr>autoIdValue := autoIdValue r - 1\<rparr> else r"
  let ?w5 = "\<lparr>self = ?S, reg = ?R, log = []\<rparr>"
  let ?w1 = "fold (plainInit cm kvs fds) (obj_keys fds) ?w5"
  have w5: "?w\<lparr>reg := ?R, self := ?S\<rparr> = ?w5" by simp
  have eq: "initModel E t cm (JObj kvs) coll ?w = (Inr (), ?w1\<lparr>log := log ?w1 @ [CommitModel]\<rparr>)"
    using initModel_plain_eq[OF mm, of cm fds E t coll ?w] f(1,2)
    unfolding initialFields_def[symmetric] rawIdent_def Let_def
    by (simp add: Let_def rawIdent_def del: peekNonNullish.simps)
  let ?m = "self ?w1"
  have c: "construct E t cm (JObj kvs) coll r = (Inr (JModel t cm ?m), ?R)"
    unfolding construct_def eq by (simp add: fold_plainInit_reg)
  have R: "?R = (if rawIdent cm kvs r = JNum (autoIdValue r - 1) \<and> ?pk = JNull
                 then r\<lparr>autoIdValue := autoIdValue r - 1\<rparr> else r)"
    by (simp add: rawIdent_def Let_def del: peekNonNullish.simps)
  have other: "\<And>key. (\<And>k. key \<noteq> ''data__'' @ k) \<Longrightarrow> map_of ?m key = map_of ?S key"
    using fold_plainInit_other[of "obj_keys fds" _ cm kvs fds ?w5] by simp
  have k1: "map_of ?m Collection = Some coll"
    by (subst other) (simp_all add: map_of_setMeta Collection_def TypeField_def IdField_def
        OriginalId_def Fields_def)
  have k2: "map_of ?m TypeField = Some (peekNonNullish [obj_get kvs (typeFieldOf cm),
                                   obj_get (entries_of (obj_get kvs META_FIELD)) ''type'', t])"
    by (subst other) (simp_all add: map_of_setMeta Collection_def TypeField_def IdField_def
        OriginalId_def Fields_def del: peekNonNullish.simps)
  have k3: "map_of ?m IdField = Some (rawIdent cm kvs r)"
    by (subst other) (simp_all add: map_of_setMeta Collection_def TypeField_def IdField_def
        OriginalId_def Fields_def)
  have k4: "map_of ?m OriginalId = Some (obj_get (entries_of (obj_get kvs META_FIELD)) ''originalId'')"
    by (subst other) (simp_all add: map_of_setMeta Collection_def TypeField_def IdField_def
        OriginalId_def Fields_def)
  have fm: "fields_of ?m = fds"
    using fold_plainInit_fields[of cm kvs fds "obj_keys fds" ?w5]
    by (simp add: fields_of_set_Fields del: fields_of.simps)
  have sub1: "set (obj_keys ?f0) \<subseteq> set (obj_keys fds)" using f(3) by auto
  have sub2: "set (obj_keys fds) \<subseteq> set (obj_keys ?f0) \<union> set (obj_keys kvs)" using f(3) by auto
  have dat: "\<forall>key \<in> set (obj_keys fds). key \<noteq> typeFieldOf cm \<longrightarrow> key \<noteq> idFieldOf cm \<longrightarrow>
               map_of ?m (''data__'' @ key) = Some (fieldValue kvs fds key)"
    using fold_plainInit_data[of _ "obj_keys fds" cm kvs fds ?w5] by blast
  show ?thesis
    apply (rule exI[of _ ?m])
    unfolding fm
    using c R k1 k2 k3 k4 f(2) sub1 sub2 dat by (simp del: peekNonNullish.simps fields_of.simps)
qed


lemma getProp_plain:
  assumes "plainFields (fields_of m)" and "key \<in> set (obj_keys (fields_of m))"
    and "key \<noteq> typeFieldOf cm" and "key \<noteq> idFieldOf cm"
    and "map_of m (''data__'' @ key) = Some v"
  shows "getProp (JModel t cm m) key = Inr v"
proof -
  obtain d where d: "obj_get (fields_of m) key = JObj d" "\<not> truthy (obj_get d ''referenceDef'')"
    using plainFields_get[OF assms(1,2)] by blast
  show ?thesis using assms(2-5) d
    by (simp add: getProp_def referenceDef_def getMeta_def del: fields_of.simps)
qed


subsection \<open>The registry\<close>

text \<open>
  C1. For every registry and every raw data object, \<^verbatim>\<open>add(rawData, type)\<close> fails with the
  error "Model already exists, please update it instead." when an entity with the same
  (type, id) is registered, and the registry, with the existing entity in it, stays as it
  was.
\<close>

theorem add_existing_fails:
  assumes "findOne r type ident = Some e" and "rawIdOf r (JObj kvs) type = Inr ident"
  shows "add (Suc n) fns ubr (JObj kvs) type r
           = (Inl (Error ''Model already exists, please update it instead.''), r)
         \<and> findOne (snd (add (Suc n) fns ubr (JObj kvs) type r)) type ident = Some e"
  using assms by (simp add: add_step_def MODEL_EXISTS_def)

theorem add_existing_fails_witness:
  "add (Suc 0) noRefModelFn noBackRef
     (JObj [(''id'', JNum 5), (''name'', JStr ''y'')]) (JStr ''foo'') oneFoo
   = (Inl (Error ''Model already exists, please update it instead.''), oneFoo)"
proof -
  have f: "findOne oneFoo (JStr ''foo'') (JNum 5) = Some (JModel (JStr ''foo'') fooMeta foo5)"
    by (simp add: findOne_def oneFoo_def)
  have i: "rawIdOf oneFoo (JObj [(''id'', JNum 5), (''name'', JStr ''y'')]) (JStr ''foo'') = Inr (JNum 5)"
    by code_simp
  show ?thesis using add_existing_fails [OF f i] by simp
qed

subsection \<open>Resolution of reference values\<close>






subsection \<open>The response cache\<close>

lemma networkCall_error: "server_error r \<Longrightarrow> networkCall (Responds r) key now st = (ServerError r, st)"
  by (simp add: networkCall_def)

lemma networkCall_store:
  assumes inv: "\<forall>e \<in> snd ` set st. \<not> server_error (cached e)"
  shows "\<forall>e \<in> snd ` set (snd (networkCall net key now st)). \<not> server_error (cached e)"
proof (cases net)
  case Unavailable
  then show ?thesis using inv by (simp add: networkCall_def)
next
  case (Responds r)
  show ?thesis
  proof (cases "server_error r")
    case True
    then show ?thesis using inv Responds by (simp add: networkCall_def)
  next
    case False
    have "set (AList.update key \<lparr>cached = r, fetchedAt = now\<rparr> st)
            \<subseteq> insert (key, \<lparr>cached = r, fetchedAt = now\<rparr>) (set st)"
      by (rule set_alist_update)
    then show ?thesis using inv Responds False by (auto simp: networkCall_def)
  qed
qed

lemma fetch_store_cases:
  "store (fetch strategy maxAge now key net st) = st
   \<or> store (fetch strategy maxAge now key net st) = snd (networkCall net key now st)"
  by (auto simp: fetch_def fromNetwork_def fromCache_def revalidate_def
      split: CachingStrategy.splits option.splits prod.splits network.splits)

lemma fetch_no_entry_calls:
  "map_of st key = None \<Longrightarrow> strategy \<noteq> CacheOnly \<Longrightarrow> strategy \<noteq> UnknownStrategy \<Longrightarrow>
   networkCalls (fetch strategy maxAge now key net st) = 1"
  by (auto simp: fetch_def fromNetwork_def
      split: CachingStrategy.splits option.splits prod.splits network.splits)

text \<open>
  C6. A fetch whose response is a server-reported error (a status outside the success
  range, or an error payload) writes nothing into the cache store. If the store had no entry
  for the fingerprint, it has none afterwards, and the next fetch of that fingerprint, under
  any strategy that uses the network when there is no entry, issues the network call again.
  No fetch, whatever the network answers, puts an error response into a store that
  held none.
\<close>

theorem server_error_never_cached:
  assumes "server_error r"
  shows "store (fetch strategy maxAge now key (Responds r) st) = st
    \<and> (map_of st key = None \<longrightarrow>
         map_of (store (fetch strategy maxAge now key (Responds r) st)) key = None
         \<and> (\<forall>strategy'. strategy' \<noteq> CacheOnly \<and> strategy' \<noteq> UnknownStrategy \<longrightarrow>
              networkCalls (fetch strategy' maxAge' now' key net'
                (store (fetch strategy maxAge now key (Responds r) st))) = 1))
    \<and> ((\<forall>e \<in> snd ` set st. \<not> server_error (cached e)) \<longrightarrow>
         (\<forall>e \<in> snd ` set (store (fetch strategy2 maxAge now key net st)). \<not> server_error (cached e)))"
proof -
  have a: "store (fetch strategy maxAge now key (Responds r) st) = st"
    using fetch_store_cases[of strategy maxAge now key "Responds r" st] assms
    by (auto simp: networkCall_error)
  have c: "(\<forall>e \<in> snd ` set st. \<not> server_error (cached e)) \<longrightarrow>
         (\<forall>e \<in> snd ` set (store (fetch strategy2 maxAge now key net st)). \<not> server_error (cached e))"
    using fetch_store_cases[of strategy2 maxAge now key net st] networkCall_store[of st net key now]
    by metis
  show ?thesis using a c by (simp add: fetch_no_entry_calls)
qed

theorem server_error_never_cached_witness:
  "server_error \<lparr>status = 500, body = JNull, errors = None\<rparr>
   \<and> store (fetch CacheFirst 10 0 ''event/12345'' (Responds \<lparr>status = 500, body = JNull, errors = None\<rparr>) []) = []
   \<and> networkCalls (fetch CacheFirst 10 1 ''event/12345''
        (Responds \<lparr>status = 200, body = JStr ''event'', errors = None\<rparr>)
        (store (fetch CacheFirst 10 0 ''event/12345'' (Responds \<lparr>status = 500, body = JNull, errors = None\<rparr>) []))) = 1"
proof -
  have h: "server_error \<lparr>status = 500, body = JNull, errors = None\<rparr>"
    by (simp add: server_error_def)
  show ?thesis
    using h server_error_never_cached [OF h, of CacheFirst 10 0 "''event/12345''" "[]" 10 1
        "Responds \<lparr>status = 200, body = JStr ''event'', errors = None\<rparr>"]
    by (simp add: fetch_def fromNetwork_def networkCall_def server_error_def)
qed


subsection \<open>Updates keep the identity of a model\<close>

lemma frame_refl: "frame K w w"
  by (simp add: frame_def)

lemma frame_trans: "frame K w w1 \<Longrightarrow> frame K w1 w2 \<Longrightarrow> frame K w w2"
  by (fastforce simp: frame_def)

lemma keepsD: "keeps K m \<Longrightarrow> frame K w (snd (m w))"
  by (simp add: keeps_def)

lemma keeps_returnM: "keeps K (returnM x)"
  by (simp add: keeps_def returnM_def frame_refl)

lemma keeps_throwM: "keeps K (throwM e)"
  by (simp add: keeps_def throwM_def frame_refl)

lemma keeps_liftE: "keeps K (liftE v)"
  by (simp add: keeps_def liftE_def frame_refl)

lemma keeps_bindM:
  assumes "keeps K m" and "\<And>x. keeps K (f x)"
  shows "keeps K (bindM m f)"
proof (unfold keeps_def, intro allI)
  fix w
  obtain res w1 where mw: "m w = (res, w1)" by (cases "m w")
  have f1: "frame K w w1" using keepsD[OF assms(1), of w] mw by simp
  show "frame K w (snd (bindM m f w))"
  proof (cases res)
    case (Inl e)
    then show ?thesis using mw f1 by (simp add: bindM_def)
  next
    case (Inr x)
    have "frame K w1 (snd (f x w1))" using keepsD[OF assms(2)] .
    then show ?thesis using mw f1 Inr by (auto simp: bindM_def intro: frame_trans)
  qed
qed

lemma keeps_setMetaM: "key \<notin> K \<Longrightarrow> keeps K (setMetaM key v)"
  by (auto simp: keeps_def setMetaM_def frame_def setMeta_def update_conv')

lemma keeps_emit: "ev \<noteq> StartAction \<Longrightarrow> ev \<noteq> EndAction \<Longrightarrow> keeps K (emit ev)"
  by (simp add: keeps_def emit_def frame_def)

lemma keeps_onRegistry: "keeps K (onRegistry f)"
  by (simp add: keeps_def onRegistry_def frame_def split: prod.splits)

lemma keeps_forEachM: "(\<And>x. keeps K (f x)) \<Longrightarrow> keeps K (forEachM xs f)"
  by (induction xs) (simp_all add: keeps_returnM keeps_bindM)

lemma keeps_mapM: "(\<And>x. keeps K (f x)) \<Longrightarrow> keeps K (mapM f xs)"
  by (induction xs) (simp_all add: keeps_returnM keeps_bindM)

lemma keeps_mapItemsM: "(\<And>x. keeps K (f x)) \<Longrightarrow> keeps K (mapItemsM v f)"
  by (cases v) (simp_all add: mapItemsM_def keeps_returnM keeps_bindM keeps_mapM)

lemma keeps_if: "(c \<Longrightarrow> keeps K a) \<Longrightarrow> (\<not> c \<Longrightarrow> keeps K b) \<Longrightarrow> keeps K (if c then a else b)"
  by simp

lemma keepsI: "(\<And>w. frame K w (snd (m w))) \<Longrightarrow> keeps K m"
  by (simp add: keeps_def)

lemma frame_bindM: "keeps K m \<Longrightarrow> (\<And>x. keeps K (f x)) \<Longrightarrow> frame K w (snd (bindM m f w))"
  by (rule keepsD[OF keeps_bindM])

lemma frame_returnM: "frame K w (snd (returnM x w))"
  by (rule keepsD[OF keeps_returnM])

lemma frame_throwM: "frame K w (snd (throwM e w))"
  by (rule keepsD[OF keeps_throwM])

lemma frame_setMetaM: "key \<notin> K \<Longrightarrow> frame K w (snd (setMetaM key v w))"
  by (rule keepsD[OF keeps_setMetaM])

lemma frame_if:
  "(c \<Longrightarrow> frame K w (snd x)) \<Longrightarrow> (\<not> c \<Longrightarrow> frame K w (snd y)) \<Longrightarrow> frame K w (snd (if c then x else y))"
  by (cases c) simp_all

lemma keeps_if_app:
  "keeps K a \<Longrightarrow> keeps K b \<Longrightarrow> keeps K (\<lambda>w. if c then a w else b w)"
  by (cases c) (simp_all add: keeps_def)

lemma keeps_getRefItem: "keeps K (getRefItem E collection fieldDef model key item)"
proof (rule keepsI)
  fix w
  show "frame K w (snd (getRefItem E collection fieldDef model key item w))"
    unfolding getRefItem_def if_distribR
    by (intro frame_if frame_returnM frame_bindM keeps_liftE keeps_bindM keeps_onRegistry
        keeps_returnM keeps_if keeps_if_app)
qed

lemma keeps_getRefValue: "keeps K (getRefValue E v collection fieldDef model key)"
  unfolding getRefValue_def by (intro keeps_mapItemsM keeps_getRefItem)

lemma protected_Fields: "protected K \<Longrightarrow> Fields \<notin> K"
  by (simp add: protected_def)

lemma protected_data: "protected K \<Longrightarrow> ''data__'' @ key \<notin> K"
  by (simp add: protected_def del: append.simps)

lemma protected_ref: "protected K \<Longrightarrow> ''ref_'' @ key \<notin> K"
  by (simp add: protected_def del: append.simps)

lemma keeps_setField: "protected K \<Longrightarrow> keeps K (setField key d)"
  by (rule keepsI) (auto simp: setField_def protected_Fields split: jsval.splits
      intro!: frame_setMetaM frame_returnM)

lemma keeps_updateRef: "protected K \<Longrightarrow> keeps K (updateRef rtype key v)"
proof (rule keepsI)
  fix w
  assume p: "protected K"
  show "frame K w (snd (updateRef rtype key v w))"
    unfolding updateRef_def
    by (intro frame_throwM frame_bindM keeps_liftE keeps_setMetaM protected_ref[OF p] frame_if)
qed

lemma keeps_getRefValue_self:
  "keeps K (\<lambda>w'. getRefValue E v c fd (JModel t cm (self w')) key w')"
  using keeps_getRefValue[of K E v c fd _ key] by (simp add: keeps_def)

lemma keeps_initModelRef: "protected K \<Longrightarrow> keeps K (initModelRef E t cm key refDef initialVal)"
proof (rule keepsI)
  fix w
  assume p: "protected K"
  show "frame K w (snd (initModelRef E t cm key refDef initialVal w))"
    unfolding initModelRef_def Let_def
    by (intro frame_throwM frame_bindM keeps_bindM keeps_liftE keeps_setMetaM keeps_setField[OF p]
        keeps_returnM keeps_emit keeps_getRefValue_self keeps_if
        protected_ref[OF p] frame_if) simp_all
qed

lemma keeps_setPlain: "protected K \<Longrightarrow> keeps K (setPlain key v)"
  unfolding setPlain_def
  by (intro keeps_bindM keeps_emit keeps_setMetaM protected_data) simp_all

lemma keeps_setRef: "protected K \<Longrightarrow> keeps K (setRef E t cm key fieldDef v)"
proof (rule keepsI)
  fix w
  assume p: "protected K"
  show "frame K w (snd (setRef E t cm key fieldDef v w))"
    unfolding setRef_def Let_def
    by (intro frame_throwM frame_bindM keeps_bindM keeps_liftE keeps_emit keeps_getRefValue
        keeps_updateRef[OF p] frame_if) simp_all
qed

lemma keeps_setProp: "protected K \<Longrightarrow> keeps K (setProp E t cm key v)"
proof (rule keepsI)
  fix w
  assume p: "protected K"
  show "frame K w (snd (setProp E t cm key v w))"
    unfolding setProp_def Let_def
    by (intro frame_throwM frame_bindM keeps_bindM keeps_liftE keeps_onRegistry keeps_if
        keeps_setRef[OF p] keeps_setPlain[OF p] frame_if)
qed

lemma keeps_initModelField: "protected K \<Longrightarrow> keeps K (initModelField E t cm key v)"
proof (rule keepsI)
  fix w
  assume p: "protected K"
  show "frame K w (snd (initModelField E t cm key v w))"
    unfolding initModelField_def Let_def
    by (intro frame_returnM frame_bindM keeps_bindM keeps_liftE keeps_if keeps_setMetaM
        keeps_initModelRef[OF p] keeps_setPlain[OF p] protected_data[OF p]
        frame_if)
qed

lemma keeps_extendFields: "protected K \<Longrightarrow> keeps K (extendFields key d)"
proof (rule keepsI)
  fix w
  assume p: "protected K"
  show "frame K w (snd (extendFields key d w))"
    unfolding extendFields_def by (intro frame_setMetaM protected_Fields[OF p])
qed

lemma keeps_assignModel: "protected K \<Longrightarrow> keeps K (assignModel E t cm key v)"
proof (rule keepsI)
  fix w
  assume p: "protected K"
  show "frame K w (snd (assignModel E t cm key v w))"
    unfolding assignModel_def Let_def
    by (intro frame_bindM keeps_bindM keeps_liftE keeps_if keeps_setProp[OF p] keeps_returnM
        keeps_extendFields[OF p] keeps_initModelField[OF p] frame_if)
qed


lemma keeps_mergeMeta: "fst ` set kvs \<inter> K = {} \<Longrightarrow> keeps K (mergeMeta kvs)"
  unfolding mergeMeta_def
proof (induction kvs)
  case Nil
  then show ?case by (simp add: keeps_returnM)
next
  case (Cons kv kvs)
  obtain k v where kv: "kv = (k, v)" by (cases kv)
  have "k \<notin> K" using Cons.prems kv by auto
  moreover have "fst ` set kvs \<inter> K = {}" using Cons.prems by auto
  ultimately show ?case using Cons.IH kv
    by (simp add: keeps_bindM keeps_setMetaM)
qed

lemma omitKeys_keys: "fst ` set (omitKeys obj keys) \<inter> set keys = {}"
  by (auto simp: omitKeys_def)

lemma protected_id_type: "protected {IdField, TypeField}"
  by (simp add: protected_def IdField_def TypeField_def Fields_def)

lemma keeps_updateFields: "keeps {IdField, TypeField} (updateFields E t cm dat)"
  unfolding updateFields_def Let_def
proof (intro keeps_bindM keeps_liftE keeps_forEachM keeps_if keeps_returnM
    keeps_assignModel[OF protected_id_type])
  fix keys dataMeta
  have "fst ` set (omitKeys (js_or dataMeta (JObj [])) READ_ONLY_META) \<inter> {IdField, TypeField} = {}"
    using omitKeys_keys[of "js_or dataMeta (JObj [])" READ_ONLY_META]
    by (auto simp: READ_ONLY_META_def)
  then show "keeps {IdField, TypeField} (mergeMeta (omitKeys (js_or dataMeta (JObj [])) READ_ONLY_META))"
    by (rule keeps_mergeMeta)
next
  fix metaKey :: string and mv
  assume "metaKey \<notin> set READ_ONLY_META"
  then show "keeps {IdField, TypeField} (setMetaM metaKey mv)"
    by (intro keeps_setMetaM) (simp add: READ_ONLY_META_def)
qed

lemma bindM_returnM: "bindM (returnM x) f = f x"
  by (rule ext) (simp add: bindM_def returnM_def)

lemma bindM_liftE_Inr: "bindM (liftE (Inr x)) f = f x"
  by (rule ext) (simp add: bindM_def liftE_def)

lemma forEachM_filter:
  "forEachM xs (\<lambda>x. if P x then f x else returnM ()) = forEachM (filter P xs) f"
  by (induction xs) (simp_all add: bindM_returnM)

text \<open>
  What \<^verbatim>\<open>updateModel\<close> keeps in every case, whether it returns or throws: the entries
  of the meta store that hold the identifier and the type, and so the answer of
  \<^verbatim>\<open>getModelId\<close>. The keys of the data that name the identifier field or the type field
  are skipped, every other key goes through \<^verbatim>\<open>assignModel\<close>, and the patch tracker sees
  one \<^verbatim>\<open>startAction\<close>, then the single updates, and, when \<^verbatim>\<open>updateModel\<close> returns, one
  \<^verbatim>\<open>endAction\<close>.
\<close>

lemma updateModel_frame:
  "(case updateModel E t cm dat w of
      (res, w') \<Rightarrow>
        map_of (self w') IdField = map_of (self w) IdField
        \<and> map_of (self w') TypeField = map_of (self w) TypeField
        \<and> getModelId (JModel t cm (self w')) = getModelId (JModel t cm (self w))
        \<and> (\<exists>evs. StartAction \<notin> set evs \<and> EndAction \<notin> set evs
              \<and> log w' = log w @ StartAction # evs @ (if res = Inr () then [EndAction] else [])))
   \<and> (META_FIELD \<notin> set (obj_keys kvs) \<longrightarrow>
        updateFields E t cm (JObj kvs)
          = forEachM (filter (\<lambda>key. key \<noteq> idFieldOf cm \<and> key \<noteq> typeFieldOf cm) (obj_keys kvs))
              (\<lambda>key. assignModel E t cm key (obj_get kvs key)))"
proof
  let ?w1 = "w\<lparr>log := log w @ [StartAction]\<rparr>"
  obtain res w2 where body: "updateFields E t cm dat ?w1 = (res, w2)"
    by (cases "updateFields E t cm dat ?w1")
  have fr: "frame {IdField, TypeField} ?w1 w2"
    using keeps_updateFields[of E t cm dat] body by (auto simp: keeps_def dest!: spec[of _ ?w1])
  then obtain evs where evs: "log w2 = log w @ StartAction # evs"
      "StartAction \<notin> set evs" "EndAction \<notin> set evs"
    by (auto simp: frame_def)
  have ids: "map_of (self w2) IdField = map_of (self w) IdField"
      "map_of (self w2) TypeField = map_of (self w) TypeField"
    using fr by (simp_all add: frame_def)
  have gid: "getModelId (JModel t cm (self w2)) = getModelId (JModel t cm (self w))"
    using ids by (simp add: getMeta_def)
  show "case updateModel E t cm dat w of
      (res, w') \<Rightarrow>
        map_of (self w') IdField = map_of (self w) IdField
        \<and> map_of (self w') TypeField = map_of (self w) TypeField
        \<and> getModelId (JModel t cm (self w')) = getModelId (JModel t cm (self w))
        \<and> (\<exists>evs. StartAction \<notin> set evs \<and> EndAction \<notin> set evs
              \<and> log w' = log w @ StartAction # evs @ (if res = Inr () then [EndAction] else []))"
  proof (cases res)
    case (Inl e)
    then have "updateModel E t cm dat w = (Inl e, w2)"
      using body by (simp add: updateModel_def bindM_def emit_def)
    then show ?thesis using ids gid evs by auto
  next
    case (Inr u)
    then have "updateModel E t cm dat w = (Inr (), w2\<lparr>log := log w2 @ [EndAction]\<rparr>)"
      using body by (simp add: updateModel_def bindM_def emit_def)
    then show ?thesis using ids gid evs by (auto simp: getMeta_def)
  qed
next
  show "META_FIELD \<notin> set (obj_keys kvs) \<longrightarrow>
        updateFields E t cm (JObj kvs)
          = forEachM (filter (\<lambda>key. key \<noteq> idFieldOf cm \<and> key \<noteq> typeFieldOf cm) (obj_keys kvs))
              (\<lambda>key. assignModel E t cm key (obj_get kvs key))"
  proof
    assume nm: "META_FIELD \<notin> set (obj_keys kvs)"
    then have g: "map_of kvs META_FIELD = None"
      by (simp add: obj_keys_def map_of_eq_None_iff)
    have m: "omitKeys (js_or (obj_get kvs META_FIELD) (JObj [])) READ_ONLY_META = []"
      using g by (simp add: obj_get_def js_or_def omitKeys_def obj_keys_def)
    have eq: "\<And>key. key \<in> set (obj_keys kvs) \<Longrightarrow>
        (if key \<noteq> META_FIELD \<and> key \<noteq> idFieldOf cm \<and> key \<noteq> typeFieldOf cm
         then bindM (liftE (getProp (JObj kvs) key)) (\<lambda>v. assignModel E t cm key v)
         else if key = META_FIELD
         then bindM (liftE (getProp (JObj kvs) key))
                  (\<lambda>dm. forEachM (Object_keys (js_or dm (JObj [])))
                     (\<lambda>metaKey.
                        if metaKey \<notin> set READ_ONLY_META
                        then bindM (liftE (getProp dm metaKey)) (\<lambda>mv. setMetaM metaKey mv)
                        else returnM ()))
         else returnM ())
        = (if key \<noteq> idFieldOf cm \<and> key \<noteq> typeFieldOf cm
           then assignModel E t cm key (obj_get kvs key) else returnM ())"
      using nm by (auto simp: getProp_def bindM_liftE_Inr)
    have fe: "\<And>f g xs. (\<And>x. x \<in> set xs \<Longrightarrow> f x = g x) \<Longrightarrow> forEachM xs f = forEachM xs (g :: string \<Rightarrow> unit M)"
    proof -
      fix f g :: "string \<Rightarrow> unit M" and xs
      show "(\<And>x. x \<in> set xs \<Longrightarrow> f x = g x) \<Longrightarrow> forEachM xs f = forEachM xs g"
        by (induction xs) simp_all
    qed
    show "updateFields E t cm (JObj kvs)
          = forEachM (filter (\<lambda>key. key \<noteq> idFieldOf cm \<and> key \<noteq> typeFieldOf cm) (obj_keys kvs))
              (\<lambda>key. assignModel E t cm key (obj_get kvs key))"
      unfolding updateFields_def Let_def
      by (simp add: Object_keysE_def bindM_liftE_Inr getProp_def m mergeMeta_def bindM_returnM
          fe[OF eq] forEachM_filter[symmetric])
  qed
qed

text \<open>
  C7 fails on the code. \<^verbatim>\<open>getModelType\<close> asks \<^verbatim>\<open>isModelReference\<close> first, also for an
  instance, and an instance whose fields are exactly \<open>type\<close> and \<open>id\<close> passes for a
  reference: its type is then read from its field \<open>type\<close>. For the class \<open>Bar\<close>, whose type
  field has another name, \<^verbatim>\<open>updateModel(model, {type: 'baz'})\<close> assigns the plain field
  \<open>type\<close> to the model made from \<^verbatim>\<open>{id: 5}\<close>, and the type of the model, \<open>bar\<close> before the
  call, is \<open>baz\<close> after it, while the type in the meta store and the identifier are as they
  were.
\<close>

theorem updateModel_changes_type:
  assumes "tf \<noteq> ''type''" and "tf \<noteq> ''id''"
  shows "getModelType (JModel (JStr ''bar'') (barMeta tf) (barStore [])) = Inr (JStr ''bar'')
     \<and> updateModel E (JStr ''bar'') (barMeta tf) (JObj [(''type'', JStr ''baz'')])
           \<lparr>self = barStore [], reg = r, log = []\<rparr>
         = (Inr (), \<lparr>self = barStore [(''type'', JObj [(''referenceDef'', JBool False)])]
                             @ [(''data__type'', JStr ''baz'')], reg = r,
                     log = [StartAction, UpdateSingleAction ''type'' (JStr ''baz''), EndAction]\<rparr>)
     \<and> getModelType (JModel (JStr ''bar'') (barMeta tf)
           (barStore [(''type'', JObj [(''referenceDef'', JBool False)])]
              @ [(''data__type'', JStr ''baz'')])) = Inr (JStr ''baz'')
     \<and> map_of (barStore [(''type'', JObj [(''referenceDef'', JBool False)])]
              @ [(''data__type'', JStr ''baz'')]) TypeField = Some (JStr ''bar'')
     \<and> getModelId (JModel (JStr ''bar'') (barMeta tf)
           (barStore [(''type'', JObj [(''referenceDef'', JBool False)])]
              @ [(''data__type'', JStr ''baz'')])) = Inr (JNum 5)"
proof -
  have u: "updateModel E (JStr ''bar'') (barMeta tf) (JObj [(''type'', JStr ''baz'')])
           \<lparr>self = barStore [], reg = r, log = []\<rparr>
         = (Inr (), \<lparr>self = barStore [(''type'', JObj [(''referenceDef'', JBool False)])]
                             @ [(''data__type'', JStr ''baz'')], reg = r,
                     log = [StartAction, UpdateSingleAction ''type'' (JStr ''baz''), EndAction]\<rparr>)"
    using assms
    by (simp add: updateModel_def updateFields_def Let_def bindM_def emit_def liftE_def
        Object_keysE_def getProp_def obj_get_def js_or_def omitKeys_def mergeMeta_def returnM_def
        obj_keys_def META_FIELD_def idFieldOf_def typeFieldOf_def barMeta_def
        assignModel_def js_in_def barStore_def Fields_def getMeta_def Object_prototype_def
        shouldBeReference_def extendFields_def setMetaM_def setMeta_def initModelField_def
        plainField_def setPlain_def READ_ONLY_META_def)
  have g: "getModelType (JModel (JStr ''bar'') (barMeta tf) (barStore [])) = Inr (JStr ''bar'')"
    "getModelType (JModel (JStr ''bar'') (barMeta tf)
        (barStore [(''type'', JObj [(''referenceDef'', JBool False)])] @ [(''data__type'', JStr ''baz'')]))
      = Inr (JStr ''baz'')"
    using assms
    by (simp_all add: has_key_def obj_keys_def barStore_def getMeta_def Fields_def TypeField_def
        js_or_def instance_type_prop_def typeFieldOf_def idFieldOf_def barMeta_def referenceDef_def
        obj_get_def plainField_def)
  have m: "map_of (barStore [(''type'', JObj [(''referenceDef'', JBool False)])]
              @ [(''data__type'', JStr ''baz'')]) TypeField = Some (JStr ''bar'')"
    by (simp add: barStore_def TypeField_def)
  have i: "getModelId (JModel (JStr ''bar'') (barMeta tf)
           (barStore [(''type'', JObj [(''referenceDef'', JBool False)])]
              @ [(''data__type'', JStr ''baz'')])) = Inr (JNum 5)"
    by (simp add: barStore_def IdField_def getMeta_def)
  show ?thesis using u g m i by simp
qed

text \<open>The theorem for the type field \<open>kind\<close>, in a collection that knows the class; the
  model is the one that \<^verbatim>\<open>add({id: 5}, 'bar')\<close> makes there.\<close>

theorem updateModel_changes_type_witness:
  "add 1 noRefModelFn noBackRef (JObj [(''id'', JNum 5)]) (JStr ''bar'')
     \<lparr>entries = [], types = [JClass (JStr ''bar'') (barMeta ''kind'')], autoIdValue = 0\<rparr>
     = (Inr (JModel (JStr ''bar'') (barMeta ''kind'') (barStore [])),
        \<lparr>entries = [((JStr ''bar'', JNum 5), JModel (JStr ''bar'') (barMeta ''kind'') (barStore []))],
         types = [JClass (JStr ''bar'') (barMeta ''kind'')], autoIdValue = 0\<rparr>)
   \<and> getModelType (JModel (JStr ''bar'') (barMeta ''kind'') (barStore [])) = Inr (JStr ''bar'')
   \<and> getModelType (JModel (JStr ''bar'') (barMeta ''kind'')
        (self (snd (updateModel fooEnv (JStr ''bar'') (barMeta ''kind'') (JObj [(''type'', JStr ''baz'')])
           \<lparr>self = barStore [], reg = emptyFoo, log = []\<rparr>)))) = Inr (JStr ''baz'')"
proof -
  have a: "add 1 noRefModelFn noBackRef (JObj [(''id'', JNum 5)]) (JStr ''bar'')
     \<lparr>entries = [], types = [JClass (JStr ''bar'') (barMeta ''kind'')], autoIdValue = 0\<rparr>
     = (Inr (JModel (JStr ''bar'') (barMeta ''kind'') (barStore [])),
        \<lparr>entries = [((JStr ''bar'', JNum 5), JModel (JStr ''bar'') (barMeta ''kind'') (barStore []))],
         types = [JClass (JStr ''bar'') (barMeta ''kind'')], autoIdValue = 0\<rparr>)"
    by code_simp
  have h: "''kind'' \<noteq> ''type''" "''kind'' \<noteq> ''id''" by simp_all
  show ?thesis
    using updateModel_changes_type [OF h, of fooEnv emptyFoo] a by simp
qed

subsection \<open>Cloning\<close>

text \<open>
  The serialisation of a model whose fields are all plain, and what \<^verbatim>\<open>cloneModel\<close> makes
  of it before it hands it on: plain data for the class of the model, with the fields of
  the model, their values, and the identifier moved to the original identifier of the
  meta object.
\<close>

lemma obj_get_update: "obj_get (AList.update k v al) k' = (if k' = k then v else obj_get al k')"
  by (simp add: obj_get_def update_conv')

lemma obj_get_delete: "obj_get (AList.delete k al) k' = (if k' = k then JUndefined else obj_get al k')"
  by (simp add: obj_get_def delete_conv')

lemma obj_keys_set: "set (obj_keys al) = fst ` set al"
  by (simp add: obj_keys_def)

lemma getProp_plain_total:
  assumes p: "plainFields (fields_of m)" and k: "key \<in> set (obj_keys (fields_of m))"
    and i: "getModelId (JModel t cm m) = Inr i" and ty: "getModelType (JModel t cm m) = Inr ty"
  shows "getProp (JModel t cm m) key
         = Inr (if key = typeFieldOf cm then ty else if key = idFieldOf cm then i
                else getMeta m (''data__'' @ key) JUndefined)"
proof -
  obtain d where d: "obj_get (fields_of m) key = JObj d" "\<not> truthy (obj_get d ''referenceDef'')"
    using plainFields_get[OF p k] by blast
  show ?thesis using k d i ty
    by (simp add: getProp_def referenceDef_def del: fields_of.simps getModelId.simps getModelType.simps)
qed

lemma fieldsToJSON_plain:
  assumes p: "plainFields (fields_of m)"
    and i: "getModelId (JModel t cm m) = Inr i" and ty: "getModelType (JModel t cm m) = Inr ty"
  shows "set ks \<subseteq> set (obj_keys (fields_of m)) \<Longrightarrow>
    \<exists>raw'. fieldsToJSON (JModel t cm m) ks raw = Inr raw'
      \<and> set (obj_keys raw') = set (obj_keys raw) \<union> set ks
      \<and> (\<forall>k. k \<notin> set ks \<longrightarrow> map_of raw' k = map_of raw k)
      \<and> (\<forall>k \<in> set ks. getProp (JModel t cm m) k = Inr (obj_get raw' k))"
proof (induction ks arbitrary: raw)
  case Nil
  then show ?case by simp
next
  case (Cons k ks)
  have kin: "k \<in> set (obj_keys (fields_of m))" using Cons.prems by simp
  obtain d where d: "obj_get (fields_of m) k = JObj d" "\<not> truthy (obj_get d ''referenceDef'')"
    using plainFields_get[OF p kin] by blast
  obtain v where v: "getProp (JModel t cm m) k = Inr v"
    using getProp_plain_total[OF p kin i ty] by blast
  let ?raw1 = "AList.update k v raw"
  obtain raw' where r: "fieldsToJSON (JModel t cm m) ks ?raw1 = Inr raw'"
      "set (obj_keys raw') = set (obj_keys ?raw1) \<union> set ks"
      "\<forall>k'. k' \<notin> set ks \<longrightarrow> map_of raw' k' = map_of ?raw1 k'"
      "\<forall>k' \<in> set ks. getProp (JModel t cm m) k' = Inr (obj_get raw' k')"
    using Cons.IH[of ?raw1] Cons.prems by auto
  have step: "fieldsToJSON (JModel t cm m) (k # ks) raw = Inr raw'"
    using d v r(1) by (simp add: bindE_def del: fields_of.simps)
  have keys: "set (obj_keys raw') = set (obj_keys raw) \<union> set (k # ks)"
    using r(2) by (auto simp: obj_keys_update)
  have other: "\<forall>k'. k' \<notin> set (k # ks) \<longrightarrow> map_of raw' k' = map_of raw k'"
    using r(3) by (simp add: update_conv')
  have vals: "\<forall>k' \<in> set (k # ks). getProp (JModel t cm m) k' = Inr (obj_get raw' k')"
  proof
    fix k' assume "k' \<in> set (k # ks)"
    show "getProp (JModel t cm m) k' = Inr (obj_get raw' k')"
    proof (cases "k' \<in> set ks")
      case True
      then show ?thesis using r(4) by blast
    next
      case False
      then have e: "k' = k" using \<open>k' \<in> set (k # ks)\<close> by simp
      have "map_of raw' k = Some v" using r(3) False e by (simp add: update_conv')
      then show ?thesis using v e by (simp add: obj_get_def)
    qed
  qed
  show ?case using step keys other vals by blast
qed


lemma fold_update_set:
  "set (fold (\<lambda>(k, v) acc. AList.update k v acc) xs acc) \<subseteq> set xs \<union> set acc"
proof (induction xs arbitrary: acc)
  case Nil
  then show ?case by simp
next
  case (Cons x xs)
  obtain k v where x: "x = (k, v)" by (cases x)
  show ?case using Cons[of "AList.update k v acc"] set_alist_update[of k v acc] x by auto
qed

lemma fold_update_keys:
  fixes xs :: "(string \<times> jsval) list"
  shows "fst ` set (fold (\<lambda>(k, v) acc. AList.update k v acc) xs acc) = fst ` set xs \<union> fst ` set acc"
proof (induction xs arbitrary: acc)
  case Nil
  then show ?case by simp
next
  case (Cons x xs)
  obtain k v where x: "x = (k, v)" by (cases x)
  have "fst ` set (AList.update k v acc) = insert k (fst ` set acc)"
    using obj_keys_update[of k v acc] by (simp add: obj_keys_def)
  then show ?case using Cons[of "AList.update k v acc"] x by auto
qed

lemma plainFields_obj_assign:
  "plainFields a \<Longrightarrow> plainFields b \<Longrightarrow> plainFields (obj_assign a b)"
  using fold_update_set[of "a @ b" "[]"]
  by (auto simp: plainFields_def list_all_iff obj_assign_def)

lemma obj_keys_obj_assign:
  "set (obj_keys (obj_assign a b)) = set (obj_keys a) \<union> set (obj_keys b)"
  using fold_update_keys[of "a @ b" "[]"] by (simp add: obj_keys_def obj_assign_def image_Un)

lemma obj_get_map:
  "obj_get (map (\<lambda>key. (key, f key)) ks) k = (if k \<in> set ks then f k else JUndefined)"
  by (induction ks) (auto simp: obj_get_def)

lemma entries_of_fields: "entries_of (if Fields \<in> set (obj_keys m) then obj_get m Fields else JUndefined) = fields_of m"
proof (cases "map_of m Fields")
  case None
  then have "Fields \<notin> set (obj_keys m)" by (simp add: obj_keys_def map_of_eq_None_iff)
  then show ?thesis using None by (simp add: getMeta_def entries_of_def)
next
  case (Some f)
  then have "Fields \<in> set (obj_keys m)"
    by (metis obj_keys_set domI dom_map_of_conv_image_fst)
  then show ?thesis using Some
    by (cases f) (simp_all add: getMeta_def entries_of_def obj_get_def)
qed

lemma Fields_not_internal: "\<not> list_ex (\<lambda>match. startsWith Fields match) INTERNAL_META"
  by (simp add: INTERNAL_META_def startsWith_def Fields_def Patch_def PatchListeners_def
      Collection_def OriginalId_def)

lemma obj_keys_single: "set (obj_keys [(k, v)]) = {k}"
  by (simp add: obj_keys_def)

lemma cloned_plain:
  assumes p: "plainFields (fields_of m)"
    and pc: "plainFields (entries_of (getMeta (classStore cm) ClassFields (JObj [])))"
    and i: "getModelId (JModel t cm m) = Inr i" and ty: "getModelType (JModel t cm m) = Inr ty"
    and nm: "META_FIELD \<notin> set (obj_keys (fields_of m))"
  shows "\<exists>raw kvs. modelToJSON (JModel t cm m) = Inr (JObj raw) \<and> cloneRawData (JObj raw) = Inr (JObj kvs)
     \<and> plainData cm kvs
     \<and> obj_get (entries_of (obj_get kvs META_FIELD)) ''originalId'' = i
     \<and> set (obj_keys (fields_of m)) \<subseteq> set (obj_keys (initialFields cm kvs))
     \<and> set (obj_keys (fields_of m)) \<subseteq> set (obj_keys kvs)
     \<and> (\<forall>k \<in> set (obj_keys (fields_of m)). getProp (JModel t cm m) k = Inr (obj_get kvs k))"
proof -
  let ?metaKeys = "filter (\<lambda>key. \<not> list_ex (\<lambda>match. startsWith key match) INTERNAL_META) (obj_keys m)"
  let ?metaObj = "AList.update Collection JUndefined
                         (AList.update TypeField ty
                           (AList.update IdField i
                             (map (\<lambda>key. (key, obj_get m key)) ?metaKeys)))"
  let ?ks = "obj_keys (fields_of m)"
  obtain raw where r: "fieldsToJSON (JModel t cm m) ?ks [(META_FIELD, JObj ?metaObj)] = Inr raw"
      "set (obj_keys raw) = set (obj_keys [(META_FIELD, JObj ?metaObj)]) \<union> set ?ks"
      "\<forall>k. k \<notin> set ?ks \<longrightarrow> map_of raw k = map_of [(META_FIELD, JObj ?metaObj)] k"
      "\<forall>k \<in> set ?ks. getProp (JModel t cm m) k = Inr (obj_get raw k)"
    using fieldsToJSON_plain[OF p i ty, of ?ks "[(META_FIELD, JObj ?metaObj)]"] by blast
  have js: "modelToJSON (JModel t cm m) = Inr (JObj raw)"
    using i ty r(1)
    by (simp add: modelToJSON_def Let_def bindE_def
        del: getModelId.simps getModelType.simps fields_of.simps)
  have rm: "obj_get raw META_FIELD = JObj ?metaObj" using r(3) nm by (simp add: obj_get_def)
  let ?meta' = "AList.delete IdField (AList.update OriginalId (obj_get ?metaObj IdField) ?metaObj)"
  let ?kvs = "AList.update META_FIELD (JObj ?meta') raw"
  have cl: "cloneRawData (JObj raw) = Inr (JObj ?kvs)"
    using rm by (simp add: cloneRawData_def Let_def entries_of_def)
  have km: "obj_get ?kvs META_FIELD = JObj ?meta'" by (simp add: obj_get_update)
  have oi: "obj_get ?metaObj IdField = i"
    by (simp add: obj_get_update Collection_def TypeField_def IdField_def)
  have orig: "obj_get ?meta' ''originalId'' = i"
    using oi by (simp add: obj_get_update obj_get_delete OriginalId_def IdField_def)
  have ne: "Fields \<noteq> IdField" "Fields \<noteq> OriginalId" "Fields \<noteq> Collection" "Fields \<noteq> TypeField"
    by (simp_all add: Fields_def IdField_def OriginalId_def Collection_def TypeField_def)
  have inm: "Fields \<in> set ?metaKeys \<longleftrightarrow> Fields \<in> set (obj_keys m)"
    using Fields_not_internal by simp
  have "obj_get ?meta' Fields = (if Fields \<in> set (obj_keys m) then obj_get m Fields else JUndefined)"
    using ne inm by (simp add: obj_get_update obj_get_delete obj_get_map)
  then have "entries_of (obj_get ?meta' Fields) = fields_of m"
    using entries_of_fields[of m] by (simp del: fields_of.simps)
  then have mf: "entries_of (obj_get ?meta' ''fields'') = fields_of m"
    by (simp add: Fields_def)
  have init: "initialFields cm ?kvs
      = obj_assign (entries_of (getMeta (classStore cm) ClassFields (JObj []))) (fields_of m)"
    unfolding initialFields_def km using mf by (simp add: entries_of_def del: fields_of.simps)
  have pi: "plainFields (initialFields cm ?kvs)"
    unfolding init using pc p by (rule plainFields_obj_assign)
  have sub: "set ?ks \<subseteq> set (obj_keys (initialFields cm ?kvs))"
    unfolding init by (simp add: obj_keys_obj_assign del: fields_of.simps)
  have keys: "set (obj_keys ?kvs) = insert META_FIELD (set ?ks)"
    using r(2) by (simp add: obj_keys_update obj_keys_single del: fields_of.simps)
  have pd: "plainData cm ?kvs"
    unfolding plainData_def km using pi sub keys
    by (auto simp: list_all_iff js_in_def simp del: fields_of.simps)
  have vals: "\<forall>k \<in> set ?ks. getProp (JModel t cm m) k = Inr (obj_get ?kvs k)"
    using r(4) nm by (auto simp: obj_get_update simp del: fields_of.simps)
  have o2: "obj_get (entries_of (obj_get ?kvs META_FIELD)) ''originalId'' = i"
    unfolding km using orig by (simp add: entries_of_def)
  have k2: "set ?ks \<subseteq> set (obj_keys ?kvs)" using keys by auto
  show ?thesis
    apply (rule exI[of _ raw], rule exI[of _ ?kvs])
    using js cl pd o2 sub k2 vals by (simp del: fields_of.simps)
qed

text \<open>
  C3 does not hold: \<^verbatim>\<open>cloneModel\<close> of a model that is in no collection is not an error.
  The detached model that \<^verbatim>\<open>new Foo({id: 5, name: 'x'})\<close> makes is cloned into a new
  detached model, and a warning is logged.
\<close>

theorem cloneModel_detached_counterexample:
  "construct fooEnv (JStr ''foo'') fooMeta (JObj [(''id'', JNum 5), (''name'', JStr ''x'')])
     JUndefined emptyFoo = (Inr (JModel (JStr ''foo'') fooMeta detachedFoo5), emptyFoo)
   \<and> getMeta detachedFoo5 Collection JUndefined = JUndefined
   \<and> cloneModel fooEnv (JStr ''foo'') fooMeta \<lparr>self = detachedFoo5, reg = emptyFoo, log = []\<rparr>
     = (Inr (JModel (JStr ''foo'') fooMeta (fooStore JUndefined (JNum 5) (JNum 5) (JStr ''x''))),
        \<lparr>self = detachedFoo5, reg = emptyFoo,
         log = [Warn ''The model is not in the collection. Referencing the original model won't be possible'']\<rparr>)"
  by code_simp

text \<open>
  A detached model with a reference field whose bucket is not empty of value, here the
  empty list of a to-many reference, is refused, after the warning: \<^verbatim>\<open>initModelRef\<close>
  throws for an initial value without a collection.
\<close>

lemma cloneModel_detached_reference:
  "construct fooEnv (JStr ''foo'') friendlyMeta (JObj [(''id'', JNum 5)]) JUndefined emptyFoo
     = (Inr (JModel (JStr ''foo'') friendlyMeta detachedFriendly), emptyFoo)
   \<and> cloneModel fooEnv (JStr ''foo'') friendlyMeta
       \<lparr>self = detachedFriendly, reg = emptyFoo, log = []\<rparr>
     = (Inl (Error ''The model needs to be in a collection to be referenceable''),
        \<lparr>self = detachedFriendly, reg = emptyFoo,
         log = [Warn ''The model is not in the collection. Referencing the original model won't be possible'']\<rparr>)"
  by code_simp

text \<open>
  C3, as amended. For every model that is in no collection, has an identifier and a type,
  and whose fields are all plain (neither the model nor its class has a reference field,
  and no field is named like the meta object), \<^verbatim>\<open>cloneModel\<close> is no error. It logs the
  warning that the original will not be referenceable and returns a new model of the
  same class, made by the constructor without a collection: the new model is in no
  collection, its original identifier is the identifier of the model, it has the fields
  of the model, and its plain fields hold the values of the model. The collection of the
  call gets no new entry.
\<close>

theorem cloneModel_detached:
  assumes "\<not> truthy (getMeta (self w) Collection JUndefined)"
    and "getModelId (JModel t cm (self w)) = Inr i"
    and "getModelType (JModel t cm (self w)) = Inr ty"
    and "plainFields (fields_of (self w))"
    and "plainFields (entries_of (getMeta (classStore cm) ClassFields (JObj [])))"
    and "META_FIELD \<notin> set (obj_keys (fields_of (self w)))"
  shows "\<exists>m r'. cloneModel E t cm w
             = (Inr (JModel t cm m), w\<lparr>log := log w @ [Warn NOT_IN_COLLECTION_WARNING], reg := r'\<rparr>)
           \<and> entries r' = entries (reg w)
           \<and> getMeta m Collection JUndefined = JUndefined
           \<and> getMeta m OriginalId JUndefined = i
           \<and> set (obj_keys (fields_of (self w))) \<subseteq> set (obj_keys (fields_of m))
           \<and> (\<forall>key \<in> set (obj_keys (fields_of (self w))).
                 key \<noteq> typeFieldOf cm \<longrightarrow> key \<noteq> idFieldOf cm \<longrightarrow>
                 getProp (JModel t cm m) key = getProp (JModel t cm (self w)) key)"
proof -
  obtain raw kvs where c: "modelToJSON (JModel t cm (self w)) = Inr (JObj raw)"
      "cloneRawData (JObj raw) = Inr (JObj kvs)" "plainData cm kvs"
      "obj_get (entries_of (obj_get kvs META_FIELD)) ''originalId'' = i"
      "set (obj_keys (fields_of (self w))) \<subseteq> set (obj_keys (initialFields cm kvs))"
      "set (obj_keys (fields_of (self w))) \<subseteq> set (obj_keys kvs)"
      "\<forall>k \<in> set (obj_keys (fields_of (self w))). getProp (JModel t cm (self w)) k = Inr (obj_get kvs k)"
    using cloned_plain[OF assms(4) assms(5) assms(2) assms(3) assms(6)] by blast
  obtain m R where m: "construct E t cm (JObj kvs) JUndefined (reg w) = (Inr (JModel t cm m), R)"
      "R = (if rawIdent cm kvs (reg w) = JNum (autoIdValue (reg w) - 1)
                 \<and> peekNonNullish [obj_get kvs (idFieldOf cm),
                      obj_get (entries_of (obj_get kvs META_FIELD)) ''id''] = JNull
              then (reg w)\<lparr>autoIdValue := autoIdValue (reg w) - 1\<rparr> else reg w)"
      "map_of m Collection = Some JUndefined"
      "map_of m OriginalId = Some (obj_get (entries_of (obj_get kvs META_FIELD)) ''originalId'')"
      "plainFields (fields_of m)"
      "set (obj_keys (initialFields cm kvs)) \<subseteq> set (obj_keys (fields_of m))"
      "\<forall>key \<in> set (obj_keys (fields_of m)). key \<noteq> typeFieldOf cm \<longrightarrow> key \<noteq> idFieldOf cm \<longrightarrow>
               map_of m (''data__'' @ key) = Some (fieldValue kvs (fields_of m) key)"
    using construct_plain[OF c(3), of E t JUndefined "reg w"] by blast
  have run: "cloneModel E t cm w
             = (Inr (JModel t cm m), w\<lparr>log := log w @ [Warn NOT_IN_COLLECTION_WARNING], reg := R\<rparr>)"
    using assms(1) c(1) c(2) m(1)
    by (simp add: cloneModel_def Let_def bindM_def liftE_def emit_def onRegistry_def)
  have eR: "entries R = entries (reg w)" using m(2) by auto
  have col: "getMeta m Collection JUndefined = JUndefined" using m(3) by (simp add: getMeta_def)
  have orig: "getMeta m OriginalId JUndefined = i" using m(4) c(4) by (simp add: getMeta_def)
  have sub: "set (obj_keys (fields_of (self w))) \<subseteq> set (obj_keys (fields_of m))"
    using c(5) m(6) by blast
  have vals: "\<forall>key \<in> set (obj_keys (fields_of (self w))).
                 key \<noteq> typeFieldOf cm \<longrightarrow> key \<noteq> idFieldOf cm \<longrightarrow>
                 getProp (JModel t cm m) key = getProp (JModel t cm (self w)) key"
  proof (intro ballI impI)
    fix key
    assume k: "key \<in> set (obj_keys (fields_of (self w)))" "key \<noteq> typeFieldOf cm" "key \<noteq> idFieldOf cm"
    have km: "key \<in> set (obj_keys (fields_of m))" using k(1) sub by blast
    have kk: "key \<in> set (obj_keys kvs)" using k(1) c(6) by blast
    have "map_of m (''data__'' @ key) = Some (obj_get kvs key)"
      using m(7) km k(2,3) kk by (simp add: fieldValue_def del: fields_of.simps)
    then have "getProp (JModel t cm m) key = Inr (obj_get kvs key)"
      using getProp_plain[OF m(5) km k(2) k(3)] by simp
    then show "getProp (JModel t cm m) key = getProp (JModel t cm (self w)) key"
      using c(7) k(1) by simp
  qed
  show ?thesis
    apply (rule exI[of _ m], rule exI[of _ R])
    using run eR col orig sub vals by (simp del: fields_of.simps)
qed

text \<open>The theorem at the detached model of \<^verbatim>\<open>new Foo({id: 5, name: 'x'})\<close>: the clone is
  the model the theorem describes, with the original identifier 5 and the name of the
  model.\<close>

theorem cloneModel_detached_witness:
  "\<not> truthy (getMeta detachedFoo5 Collection JUndefined)
   \<and> getModelId (JModel (JStr ''foo'') fooMeta detachedFoo5) = Inr (JNum 5)
   \<and> getModelType (JModel (JStr ''foo'') fooMeta detachedFoo5) = Inr (JStr ''foo'')
   \<and> plainFields (fields_of detachedFoo5)
   \<and> plainFields (entries_of (getMeta (classStore fooMeta) ClassFields (JObj [])))
   \<and> META_FIELD \<notin> set (obj_keys (fields_of detachedFoo5))
   \<and> fst (cloneModel fooEnv (JStr ''foo'') fooMeta \<lparr>self = detachedFoo5, reg = emptyFoo, log = []\<rparr>)
       = Inr (JModel (JStr ''foo'') fooMeta (fooStore JUndefined (JNum 5) (JNum 5) (JStr ''x'')))
   \<and> getMeta (fooStore JUndefined (JNum 5) (JNum 5) (JStr ''x'')) Collection JUndefined = JUndefined
   \<and> getMeta (fooStore JUndefined (JNum 5) (JNum 5) (JStr ''x'')) OriginalId JUndefined = JNum 5
   \<and> getProp (JModel (JStr ''foo'') fooMeta (fooStore JUndefined (JNum 5) (JNum 5) (JStr ''x''))) ''name''
       = getProp (JModel (JStr ''foo'') fooMeta detachedFoo5) ''name''"
proof -
  let ?w = "\<lparr>self = detachedFoo5, reg = emptyFoo, log = []\<rparr>"
  let ?c = "fooStore JUndefined (JNum 5) (JNum 5) (JStr ''x'')"
  have h1: "\<not> truthy (getMeta (self ?w) Collection JUndefined)" by code_simp
  have h2: "getModelId (JModel (JStr ''foo'') fooMeta (self ?w)) = Inr (JNum 5)" by code_simp
  have h3: "getModelType (JModel (JStr ''foo'') fooMeta (self ?w)) = Inr (JStr ''foo'')" by code_simp
  have h4: "plainFields (fields_of (self ?w))" by code_simp
  have h5: "plainFields (entries_of (getMeta (classStore fooMeta) ClassFields (JObj [])))" by code_simp
  have h6: "META_FIELD \<notin> set (obj_keys (fields_of (self ?w)))" by code_simp
  have ev: "fst (cloneModel fooEnv (JStr ''foo'') fooMeta ?w) = Inr (JModel (JStr ''foo'') fooMeta ?c)"
    by code_simp
  have n1: "''name'' \<in> set (obj_keys (fields_of (self ?w)))" by code_simp
  have n2: "''name'' \<noteq> typeFieldOf fooMeta" "''name'' \<noteq> idFieldOf fooMeta" by code_simp+
  obtain m r' where t: "cloneModel fooEnv (JStr ''foo'') fooMeta ?w
             = (Inr (JModel (JStr ''foo'') fooMeta m),
                ?w\<lparr>log := log ?w @ [Warn NOT_IN_COLLECTION_WARNING], reg := r'\<rparr>)"
      "getMeta m Collection JUndefined = JUndefined"
      "getMeta m OriginalId JUndefined = JNum 5"
      "\<forall>key \<in> set (obj_keys (fields_of (self ?w))).
                 key \<noteq> typeFieldOf fooMeta \<longrightarrow> key \<noteq> idFieldOf fooMeta \<longrightarrow>
                 getProp (JModel (JStr ''foo'') fooMeta m) key
                 = getProp (JModel (JStr ''foo'') fooMeta (self ?w)) key"
    using cloneModel_detached [OF h1 h2 h3 h4 h5 h6, of fooEnv] by blast
  have m: "m = ?c" using t(1) ev by simp
  have g: "getProp (JModel (JStr ''foo'') fooMeta ?c) ''name''
           = getProp (JModel (JStr ''foo'') fooMeta detachedFoo5) ''name''"
    using t(4) n1 n2 m by auto
  show ?thesis using h1 h2 h3 h4 h5 h6 ev t(2) t(3) g m by simp
qed

text \<open>
  C4 fails on the code. The class \<open>Foo\<close> declares its identifier attribute, so the
  identifier is one of the fields of the model that \<^verbatim>\<open>add({id: 5, name: 'x'}, 'foo')\<close>
  makes, and \<^verbatim>\<open>modelToJSON\<close> writes it twice: into the meta object and under \<open>id\<close>.
  \<^verbatim>\<open>cloneModel\<close> removes the first only. Whatever \<^verbatim>\<open>collection.add\<close> is, it is called
  with raw data that still carries the identifier 5, the identifier under which the
  registry files such data and which the constructor gives the copy; the \<^verbatim>\<open>add\<close> of the
  registry, which refuses raw data whose identifier is registered, refuses it, and no model
  with another identifier is returned.
\<close>

theorem cloneModel_keeps_id:
  "add 1 noRefModelFn noBackRef (JObj [(''id'', JNum 5), (''name'', JStr ''x'')]) (JStr ''foo'') emptyFoo
     = (Inr (JModel (JStr ''foo'') fooMeta foo5), oneFoo)
   \<and> bindE (modelToJSON (JModel (JStr ''foo'') fooMeta foo5)) cloneRawData = Inr clonedFoo5
   \<and> cloneModel \<lparr>collection_add = ad, ref_model_fn = noRefModelFn, updateBackRef = noBackRef\<rparr>
       (JStr ''foo'') fooMeta \<lparr>self = foo5, reg = oneFoo, log = []\<rparr>
     = (case ad clonedFoo5 (JStr ''foo'') oneFoo of
          (res, r') \<Rightarrow> (res, \<lparr>self = foo5, reg = r', log = []\<rparr>))
   \<and> getProp clonedFoo5 (idFieldOf fooMeta) = Inr (JNum 5)
   \<and> rawIdOf oneFoo clonedFoo5 (JStr ''foo'') = Inr (JNum 5)
   \<and> construct fooEnv (JStr ''foo'') fooMeta clonedFoo5 JCollection oneFoo
     = (Inr (JModel (JStr ''foo'') fooMeta (fooStore JCollection (JNum 5) (JNum 5) (JStr ''x''))), oneFoo)
   \<and> cloneModel fooEnv (JStr ''foo'') fooMeta \<lparr>self = foo5, reg = oneFoo, log = []\<rparr>
     = (Inl (Error ''Model already exists, please update it instead.''),
        \<lparr>self = foo5, reg = oneFoo, log = []\<rparr>)"
proof -
  have a: "add 1 noRefModelFn noBackRef (JObj [(''id'', JNum 5), (''name'', JStr ''x'')]) (JStr ''foo'') emptyFoo
     = (Inr (JModel (JStr ''foo'') fooMeta foo5), oneFoo)" by code_simp
  have j: "modelToJSON (JModel (JStr ''foo'') fooMeta (self \<lparr>self = foo5, reg = oneFoo, log = []\<rparr>))
     = Inr (JObj [(''__META__'',
            JObj [(''type'', JStr ''foo''), (''id'', JNum 5), (''fields'', fooFields),
                  (''collection'', JUndefined)]),
           (''id'', JNum 5), (''kind'', JStr ''foo''), (''name'', JStr ''x'')])" by code_simp
  have c: "cloneRawData (JObj [(''__META__'',
            JObj [(''type'', JStr ''foo''), (''id'', JNum 5), (''fields'', fooFields),
                  (''collection'', JUndefined)]),
           (''id'', JNum 5), (''kind'', JStr ''foo''), (''name'', JStr ''x'')]) = Inr clonedFoo5"
    by code_simp
  have t: "getModelType (JModel (JStr ''foo'') fooMeta (self \<lparr>self = foo5, reg = oneFoo, log = []\<rparr>))
     = Inr (JStr ''foo'')" by code_simp
  have k: "truthy (getMeta (self \<lparr>self = foo5, reg = oneFoo, log = []\<rparr>) Collection JUndefined)"
    by code_simp
  have b: "bindE (modelToJSON (JModel (JStr ''foo'') fooMeta foo5)) cloneRawData = Inr clonedFoo5"
    using j c by (simp add: bindE_def)
  have g: "cloneModel \<lparr>collection_add = ad, ref_model_fn = noRefModelFn, updateBackRef = noBackRef\<rparr>
       (JStr ''foo'') fooMeta \<lparr>self = foo5, reg = oneFoo, log = []\<rparr>
     = (case ad clonedFoo5 (JStr ''foo'') oneFoo of
          (res, r') \<Rightarrow> (res, \<lparr>self = foo5, reg = r', log = []\<rparr>))"
    using k j c t
    by (simp add: cloneModel_def Let_def bindM_def liftE_def onRegistry_def split: prod.splits
        del: getModelType.simps)
  have p: "getProp clonedFoo5 (idFieldOf fooMeta) = Inr (JNum 5)" by code_simp
  have i: "rawIdOf oneFoo clonedFoo5 (JStr ''foo'') = Inr (JNum 5)" by code_simp
  have n: "construct fooEnv (JStr ''foo'') fooMeta clonedFoo5 JCollection oneFoo
     = (Inr (JModel (JStr ''foo'') fooMeta (fooStore JCollection (JNum 5) (JNum 5) (JStr ''x''))), oneFoo)"
    by code_simp
  have e: "cloneModel fooEnv (JStr ''foo'') fooMeta \<lparr>self = foo5, reg = oneFoo, log = []\<rparr>
     = (Inl (Error ''Model already exists, please update it instead.''),
        \<lparr>self = foo5, reg = oneFoo, log = []\<rparr>)" by code_simp
  show ?thesis using a b g p i n e by simp
qed

subsection \<open>Assignment\<close>

lemma assignModel_NO_REFS:
  assumes "key \<in> set (obj_keys (fields_of (self w)))"
    and "js_prop (obj_get (fields_of (self w)) key) ''referenceDef'' = Inr rd"
    and "\<not> truthy rd" and "shouldBeReference v"
  shows "assignModel E t cm key v w = (Inl (Error ''You should save this value as a reference.''), w)"
  using assms
  by (simp add: assignModel_def Let_def bindM_def liftE_def bindE_def NO_REFS_def js_in_def
      del: fields_of.simps)

text \<open>
  C5 fails on the code. A key that is not a declared field is assigned a model whose type
  is the number 7. \<^verbatim>\<open>mapItems(value, getModelType)\<close> is then the number 7 itself, not a list,
  and \<^verbatim>\<open>new Set(7)\<close> throws a \<^verbatim>\<open>TypeError\<close>: the field table is not extended and
  nothing is assigned.
\<close>

theorem assignModel_numeric_type:
  "shouldBeReference seven1
   \<and> ''friend'' \<notin> set (obj_keys (fields_of foo5))
   \<and> \<not> js_in ''friend'' (fields_of foo5)
   \<and> mapItems seven1 getModelType = Inr (JNum 7)
   \<and> assignModel fooEnv (JStr ''foo'') fooMeta ''friend'' seven1 \<lparr>self = foo5, reg = oneFoo, log = []\<rparr>
     = (Inl TypeError, \<lparr>self = foo5, reg = oneFoo, log = []\<rparr>)"
  by code_simp

subsection \<open>Sorted query parameters\<close>

text \<open>
  \<^verbatim>\<open>sortUrlParams\<close> cuts the URL at the question mark, parses what follows with
  \<^verbatim>\<open>URLSearchParams\<close>, sorts the parameters by name, the sort being stable, and writes
  them back. The lemmas below follow these steps for a list of parameters and a
  permutation of it.
\<close>

lemma split_nonempty: "split c s \<noteq> []"
  by (induction s) (auto split: list.splits)

lemma split_append: "split c (x @ c # y) = split c x @ split c y"
proof (induction x)
  case Nil
  then show ?case by simp
next
  case (Cons h t)
  then show ?case using split_nonempty[of c t]
    by (cases "split c t") auto
qed

lemma split_none: "c \<notin> set s \<Longrightarrow> split c s = [s]"
  by (induction s) auto

lemma split_join: "ps \<noteq> [] \<Longrightarrow> split c (join [c] ps) = concat (map (split c) ps)"
proof (induction ps rule: induct_list012)
  case 1
  then show ?case by simp
next
  case (2 x)
  then show ?case by simp
next
  case (3 x y zs)
  then show ?case using split_append[of c x "join [c] (y # zs)"] by simp
qed

lemma set_join: "set (join sep ps) \<subseteq> set sep \<union> \<Union> (set ` set ps)"
  by (induction sep ps rule: join.induct) auto

lemma join_Nil_iff: "join [c] ps = [] \<longleftrightarrow> ps = [] \<or> ps = [[]]"
  by (induction "[c]" ps rule: join.induct) auto

lemma mset_concat_map:
  "mset ps = mset ps' \<Longrightarrow> mset (concat (map f ps)) = mset (concat (map f ps'))"
proof -
  assume a: "mset ps = mset ps'"
  have "mset (concat (map f ps)) = sum_mset (image_mset (\<lambda>p. mset (f p)) (mset ps))"
    by (induction ps) simp_all
  moreover have "mset (concat (map f ps')) = sum_mset (image_mset (\<lambda>p. mset (f p)) (mset ps'))"
    by (induction ps') simp_all
  ultimately show ?thesis using a by simp
qed

lemma filter_key_single:
  "distinct (map f zs) \<Longrightarrow> k \<in> set zs \<Longrightarrow> filter (\<lambda>x. f k = f x) zs = [k]"
proof (induction zs)
  case Nil then show ?case by simp
next
  case (Cons z zs)
  show ?case
  proof (cases "z = k")
    case True
    have "filter (\<lambda>x. f k = f x) zs = []"
      using Cons.prems True by (auto simp: filter_empty_conv)
    then show ?thesis using True by simp
  next
    case False
    then have "k \<in> set zs" using Cons.prems by simp
    moreover have "f z \<noteq> f k" using Cons.prems \<open>k \<in> set zs\<close> by auto
    ultimately show ?thesis using Cons by auto
  qed
qed

lemma sort_key_perm:
  assumes m: "mset xs = mset ys" and d: "distinct (map f xs)"
  shows "sort_key f xs = sort_key f ys"
proof (rule properties_for_sort_key)
  show "mset (sort_key f ys) = mset xs" using m by simp
  show "sorted (map f (sort_key f ys))" by simp
  fix k assume "k \<in> set (sort_key f ys)"
  then have kx: "k \<in> set xs" using m by (metis mset_eq_setD set_sort)
  have dy: "distinct (map f ys)"
    using d m by (metis mset_eq_imp_distinct_iff mset_map)
  have ky: "k \<in> set ys" using kx m by (metis mset_eq_setD)
  have "filter (\<lambda>x. f k = f x) (sort_key f ys) = sort_key f (filter (\<lambda>x. f k = f x) ys)"
    by (simp add: filter_sort)
  also have "\<dots> = [k]" using filter_key_single[OF dy ky] by simp
  finally show "filter (\<lambda>x. f k = f x) (sort_key f ys) = filter (\<lambda>x. f k = f x) xs"
    using filter_key_single[OF d kx] by simp
qed


lemma sortUrlParams_perm:
  assumes m: "mset ps = mset ps'"
    and b: "CHR ''?'' \<notin> set base"
    and q: "\<forall>p\<in>set ps. CHR ''?'' \<notin> set p"
    and d: "distinct (map fst (URLSearchParams (join ''&'' ps)))"
  shows "sortUrlParams c (appendParams base ps) = sortUrlParams c (appendParams base ps')"
proof (cases "ps = [] \<or> ps = [[]]")
  case True
  then have "ps' = ps" using m by auto
  then show ?thesis by simp
next
  case False
  then have ne: "ps \<noteq> []" and ne1: "ps \<noteq> [[]]" by auto
  have ne': "ps' \<noteq> []" using m ne by auto
  have ne1': "ps' \<noteq> [[]]" using m ne1 by auto
  have s: "set ps' = set ps" using m by (metis mset_eq_setD)
  have q': "\<forall>p\<in>set ps'. CHR ''?'' \<notin> set p" using q s by simp
  have nq: "CHR ''?'' \<notin> set (join ''&'' ps)" using set_join[of "''&''" ps] q by auto
  have nq': "CHR ''?'' \<notin> set (join ''&'' ps')" using set_join[of "''&''" ps'] q' by auto
  have j: "join ''&'' ps \<noteq> []" using join_Nil_iff[of "CHR ''&''" ps] ne ne1 by simp
  have j': "join ''&'' ps' \<noteq> []" using join_Nil_iff[of "CHR ''&''" ps'] ne' ne1' by simp
  have sp: "split CHR ''?'' (base @ CHR ''?'' # join ''&'' ps) = [base, join ''&'' ps]"
    using split_append[of "CHR ''?''" base "join ''&'' ps"] split_none[OF b] split_none[OF nq]
    by simp
  have sp': "split CHR ''?'' (base @ CHR ''?'' # join ''&'' ps') = [base, join ''&'' ps']"
    using split_append[of "CHR ''?''" base "join ''&'' ps'"] split_none[OF b] split_none[OF nq']
    by simp
  have t: "take 1 (join ''&'' ps) \<noteq> ''?''"
  proof
    assume "take 1 (join ''&'' ps) = ''?''"
    then have "CHR ''?'' \<in> set (take 1 (join ''&'' ps))" by simp
    then show False using nq by (metis in_set_takeD)
  qed
  have t': "take 1 (join ''&'' ps') \<noteq> ''?''"
  proof
    assume "take 1 (join ''&'' ps') = ''?''"
    then have "CHR ''?'' \<in> set (take 1 (join ''&'' ps'))" by simp
    then show False using nq' by (metis in_set_takeD)
  qed
  have u: "URLSearchParams (join ''&'' ps)
           = map parsePair (filter (\<lambda>cs. cs \<noteq> []) (concat (map (split CHR ''&'') ps)))"
    using t split_join[OF ne, of "CHR ''&''"] by (simp add: URLSearchParams_def)
  have u': "URLSearchParams (join ''&'' ps')
           = map parsePair (filter (\<lambda>cs. cs \<noteq> []) (concat (map (split CHR ''&'') ps')))"
    using t' split_join[OF ne', of "CHR ''&''"] by (simp add: URLSearchParams_def)
  have "mset (URLSearchParams (join ''&'' ps)) = mset (URLSearchParams (join ''&'' ps'))"
    unfolding u u' using mset_concat_map[OF m, of "split CHR ''&''"] by simp
  then have e: "sort_key fst (URLSearchParams (join ''&'' ps))
                = sort_key fst (URLSearchParams (join ''&'' ps'))"
    using d by (rule sort_key_perm)
  have a: "appendParams base ps = base @ CHR ''?'' # join ''&'' ps"
    using ne b by (simp add: appendParams_def)
  have a': "appendParams base ps' = base @ CHR ''?'' # join ''&'' ps'"
    using ne' b by (simp add: appendParams_def)
  show ?thesis
    unfolding a a' sortUrlParams_def sp sp' using j j' e by (simp add: Let_def)
qed

text \<open>A filter is flattened entry by entry, so permuted filters give permuted parameters;
  the only error of the flattening is the \<^verbatim>\<open>TypeError\<close> of a \<^verbatim>\<open>null\<close> value.\<close>

lemma bindE_simps:
  "bindE (Inl e) f = Inl e" "bindE (Inr x) f = f x"
  by (simp_all add: bindE_def)

lemma parametrize_append:
  "parametrize c (xs @ ys) scope
   = bindE (parametrize c xs scope) (\<lambda>a. bindE (parametrize c ys scope) (\<lambda>b. Inr (a @ b)))"
proof (induction xs)
  case Nil
  then show ?case by (cases "parametrize c ys scope") (simp_all add: bindE_simps)
next
  case (Cons x xs)
  obtain key v where x: "x = (key, v)" by (cases x)
  show ?case unfolding x
    apply (simp add: Cons del: parametrize.simps(2))
    apply (simp add: Cons)
    apply (simp add: bindE_def split: sum.splits)
    done
qed

lemma parametrize_error:
  "parametrize c kvs scope = Inl e \<Longrightarrow> e = TypeError"
proof (induction c kvs scope rule: parametrize.induct)
  case (1 c scope)
  then show ?case by simp
next
  case (2 c key v rest scope)
  then show ?case
    by (auto simp: bindE_def split: sum.splits jsval.splits ParamArrayType.splits)
qed

lemma parametrize_perm:
  "mset kvs = mset kvs' \<Longrightarrow>
   map_sum id mset (parametrize c kvs scope) = map_sum id mset (parametrize c kvs' scope)"
proof (induction kvs arbitrary: kvs')
  case Nil
  then show ?case by simp
next
  case (Cons x xs)
  have "x \<in> set kvs'" using Cons.prems by (metis list.set_intros(1) mset_eq_setD)
  then obtain ys zs where k: "kvs' = ys @ x # zs" by (meson split_list)
  have m: "mset xs = mset (ys @ zs)" using Cons.prems k by simp
  have ih: "map_sum id mset (parametrize c xs scope) = map_sum id mset (parametrize c (ys @ zs) scope)"
    by (rule Cons.IH[OF m])
  have l: "parametrize c (x # xs) scope
           = bindE (parametrize c [x] scope) (\<lambda>a. bindE (parametrize c xs scope) (\<lambda>b. Inr (a @ b)))"
    using parametrize_append[of c "[x]" xs scope] by simp
  have r: "parametrize c kvs' scope
           = bindE (parametrize c ys scope) (\<lambda>a. bindE (parametrize c [x] scope) (\<lambda>b.
               bindE (parametrize c zs scope) (\<lambda>d. Inr (a @ b @ d))))"
    unfolding k using parametrize_append[of c ys "x # zs" scope]
      parametrize_append[of c "[x]" zs scope]
    by (simp add: bindE_def split: sum.splits)
  have yz: "parametrize c (ys @ zs) scope
           = bindE (parametrize c ys scope) (\<lambda>a. bindE (parametrize c zs scope) (\<lambda>b. Inr (a @ b)))"
    by (rule parametrize_append)
  show ?case
    using ih parametrize_error[of c "[x]" scope] parametrize_error[of c xs scope]
      parametrize_error[of c ys scope] parametrize_error[of c zs scope]
    unfolding l r yz
    by (auto simp: bindE_def split: sum.splits)
qed

lemma prepareFilters_perm:
  assumes "mset kvs = mset kvs'"
  shows "map_sum id mset (prepareFilters c (JObj kvs)) = map_sum id mset (prepareFilters c (JObj kvs'))"
  using parametrize_perm[OF assms, of c "[]"]
  by (auto simp: prepareFilters_def entries_of_def bindE_def split: sum.splits)

lemma prepareFields_perm:
  assumes "mset kvs = mset kvs'"
  shows "mset (prepareFields c (JObj kvs)) = mset (prepareFields c (JObj kvs'))"
  using assms by (simp add: prepareFields_def entries_of_def)

lemma requestHeaders_queryOptions:
  "requestHeaders (queryOptions filterBy sortBy include fds custom) = Inr (JObj [])"
  by (simp add: requestHeaders_def queryOptions_def opt_prop_def getProp_def obj_get_def
      bindE_def js_or_def)

lemma requestParams_queryOptions:
  "requestParams c (queryOptions filterBy sortBy include fds custom)
   = bindE (prepareFilters c (JObj filterBy)) (\<lambda>filters.
     bindE (prepareRawParams c (js_or custom (JArr []))) (\<lambda>raws.
       Inr (if encodeQueryString c
            then map encodeParam (filters @ prepareSort c sortBy @ prepareIncludes c include
                   @ prepareFields c (JObj fds) @ raws)
            else filters @ prepareSort c sortBy @ prepareIncludes c include
                   @ prepareFields c (JObj fds) @ raws)))"
  by (simp add: requestParams_def queryOptions_def opt_prop_def getProp_def obj_get_def
      bindE_def js_or_def Let_def split: sum.splits)

lemma requestParams_perm:
  assumes f: "mset filterBy = mset filterBy'" and g: "mset fds = mset fds'"
    and r: "requestParams c (queryOptions filterBy sortBy include fds custom) = Inr ps"
  shows "\<exists>ps'. requestParams c (queryOptions filterBy' sortBy include fds' custom) = Inr ps'
               \<and> mset ps = mset ps'"
proof -
  obtain fl where fl: "prepareFilters c (JObj filterBy) = Inr fl"
    using r unfolding requestParams_queryOptions by (cases "prepareFilters c (JObj filterBy)") (simp_all add: bindE_def)
  obtain raws where raws: "prepareRawParams c (js_or custom (JArr [])) = Inr raws"
    using r fl unfolding requestParams_queryOptions
    by (cases "prepareRawParams c (js_or custom (JArr []))") (simp_all add: bindE_def)
  obtain fl' where fl': "prepareFilters c (JObj filterBy') = Inr fl'" and mfl: "mset fl = mset fl'"
    using prepareFilters_perm[OF f, of c] fl by (cases "prepareFilters c (JObj filterBy')") auto
  show ?thesis
    using r prepareFields_perm[OF g] mfl
    unfolding requestParams_queryOptions fl fl' raws
    by (auto simp: bindE_def)
qed











text \<open>
  A value with a question mark. \<^verbatim>\<open>sortUrlParams\<close> destructures \<^verbatim>\<open>url.split('?')\<close> into
  two pieces, so what follows a second question mark is lost before the sort, and the
  order of the entries of the filter shows in the URL.
\<close>

lemma buildUrl_question_mark:
  "buildUrl sortingConfig ''event'' JUndefined
     (JObj [(''queryParams'', JObj [(''filter'', JObj [(''a'', JStr ''what?''), (''b'', JNum 2)])])]) False
     = Inr \<lparr>url = ''https://example.com/event?filter[a]=what'', data = JUndefined, headers = JObj []\<rparr>
   \<and> buildUrl sortingConfig ''event'' JUndefined
     (JObj [(''queryParams'', JObj [(''filter'', JObj [(''b'', JNum 2), (''a'', JStr ''what?'')])])]) False
     = Inr \<lparr>url = ''https://example.com/event?filter[a]=what&filter[b]=2'', data = JUndefined, headers = JObj []\<rparr>"
  by code_simp


text \<open>
  Two query objects whose filters hold the same entries in different orders, and whose
  sparse fields do, give the same URL when no two parameters have the same name and no
  question mark occurs.
\<close>

lemma buildUrl_permuted_entries:
  assumes "sortParams c"
    and "mset filterBy = mset filterBy'" and "distinct (map fst filterBy)"
    and "mset fds = mset fds'" and "distinct (map fst fds)"
    and "requestParams c (queryOptions filterBy sortBy include fds custom) = Inr ps"
    and "CHR ''?'' \<notin> set (prefixUrl c u containsBase)"
    and "\<forall>p\<in>set ps. CHR ''?'' \<notin> set p"
    and "distinct (map fst (URLSearchParams (join ''&'' ps)))"
  shows "buildUrl c u d (queryOptions filterBy sortBy include fds custom) containsBase
         = buildUrl c u d (queryOptions filterBy' sortBy include fds' custom) containsBase"
proof -
  obtain ps' where r': "requestParams c (queryOptions filterBy' sortBy include fds' custom) = Inr ps'"
    and m: "mset ps = mset ps'"
    using requestParams_perm[OF assms(2) assms(4) assms(6)] by blast
  have "sortUrlParams c (appendParams (prefixUrl c u containsBase) ps)
        = sortUrlParams c (appendParams (prefixUrl c u containsBase) ps')"
    using m assms(7) assms(8) assms(9) by (rule sortUrlParams_perm)
  then show ?thesis
    unfolding buildUrl_def requestHeaders_queryOptions assms(6) r'
    using assms(1) by (simp add: bindE_def Let_def)
qed




end
